theory Spec2Isabelle
  imports Complex_Main "HOL-Library.Multiset"
begin

section \<open>Delayed prequential evaluation: the data model\<close>

text \<open>
  This theory embeds \<^verbatim>\<open>EvaluatePrequentialDelayed\<close>
  (\<^verbatim>\<open>skmultiflow/evaluation/evaluate_prequential_delayed.py\<close>). The evaluator object
  becomes a record that every method takes and returns; a raised exception is a value
  that carries the object as it was when the exception left the method, because the
  handler of the main loop goes on with the mutated object.
\<close>

datatype exc =
    TypeError string
  | IndexError
  | AttributeError string
  | ZeroDivisionError
  | ValueError string
  | KeyboardInterrupt
  | OtherError string

datatype task =
    CLASSIFICATION
  | MULTI_TARGET_CLASSIFICATION
  | REGRESSION
  | MULTI_TARGET_REGRESSION

text \<open>
  A row of the data frame \<^verbatim>\<open>delay_queue\<close>, with the columns of
  \<^verbatim>\<open>_delayed_columns\<close>. The frame is a list of rows in index order.
\<close>

record ('x, 'l, 't) delayed =
  X :: 'x
  y_real :: 'l
  y_pred :: "'l list"
  arrival_time :: 't
  available_time :: 't

text \<open>
  What \<^verbatim>\<open>stream.next_sample\<close> returns: the tuple of columns
  \<^verbatim>\<open>(X, arrival_time, available_time, y)\<close>. The optional fifth component
  (the weights) is unpacked by the source and never read, and is left out.
\<close>

record ('x, 'l, 't) batch =
  batch_X :: "'x list"
  batch_arrival_time :: "'t list"
  batch_available_time :: "'t list"
  batch_y :: "'l list"

text \<open>
  Modelled from the spec: the stream class is not part of the sources. The spec gives the
  contract \<^verbatim>\<open>next_sample(n)\<close>, \<^verbatim>\<open>has_more_samples()\<close>,
  \<^verbatim>\<open>n_remaining_samples()\<close> (-1 if unknown) and \<^verbatim>\<open>restart()\<close>. The stream
  is a finite table of samples and a read position; a request beyond the end returns the
  samples that are left.
\<close>

record ('x, 'l, 't) stream =
  samples :: "('x \<times> 't \<times> 't \<times> 'l) list"
  sample_idx :: nat
  n_known :: bool
  target_values :: "'l list"
  n_targets :: nat

definition next_sample ::
  "nat \<Rightarrow> ('x, 'l, 't) stream \<Rightarrow> ('x, 'l, 't) batch \<times> ('x, 'l, 't) stream" where
  "next_sample n st =
     (let rows = take n (drop (sample_idx st) (samples st))
      in (\<lparr>batch_X = map (\<lambda>(x, a, v, l). x) rows,
           batch_arrival_time = map (\<lambda>(x, a, v, l). a) rows,
           batch_available_time = map (\<lambda>(x, a, v, l). v) rows,
           batch_y = map (\<lambda>(x, a, v, l). l) rows\<rparr>,
          st\<lparr>sample_idx := sample_idx st + length rows\<rparr>))"

definition has_more_samples :: "('x, 'l, 't) stream \<Rightarrow> bool" where
  "has_more_samples st = (sample_idx st < length (samples st))"

definition n_remaining_samples :: "('x, 'l, 't) stream \<Rightarrow> int" where
  "n_remaining_samples st =
     (if n_known st then int (length (samples st) - sample_idx st) else - 1)"

definition restart :: "('x, 'l, 't) stream \<Rightarrow> ('x, 'l, 't) stream" where
  "restart st = st\<lparr>sample_idx := 0\<rparr>"

text \<open>
  What a call of \<^verbatim>\<open>model[i].predict(X)\<close> can give back to
  \<^verbatim>\<open>prediction[i].extend(...)\<close>: a sequence of labels, a value that is not
  iterable (on which \<^verbatim>\<open>extend\<close> raises TypeError), or an exception of its own.
\<close>

datatype 'l prediction =
    Labels "'l list"
  | NotIterable
  | PredictRaises exc

text \<open>
  The calls the evaluator makes whose effect lies outside the object: what it prints, the
  calls to the models, and the calls to the methods of the base class that write the
  snapshot, the file buffer and the summary. They are appended to the field
  \<open>trace\<close> of the evaluator in the order in which the source makes them.
\<close>

datatype ('x, 'l) event =
    Print string
  | Print_format string nat
  | Print_exc exc
  | Partial_fit nat "'x list" "'l list" "'l list option"
  | Predict nat "'x list"
  | Update_metrics
  | Flush_file_buffer
  | Evaluation_summary

text \<open>
  The collaborators, which the sources do not contain, are parameters of the model:
  \<^item> \<open>sort_values\<close> is \<^verbatim>\<open>DataFrame.sort_values(by='available_time')\<close> followed by
    \<^verbatim>\<open>reset_index(drop=True)\<close>. The source passes no \<^verbatim>\<open>kind\<close>, so the sort
    is the library's default (quicksort), which the library does not document as stable;
  \<^item> \<open>partial_fit\<close> and \<open>predict\<close> are the methods of a model, whose state has
    type \<open>'m\<close>; \<open>type_name\<close> is \<^verbatim>\<open>type(model).__name__\<close>;
  \<^item> \<open>timer_ok k\<close> is the outcome of the wall-clock test
    \<^verbatim>\<open>self._end_time - self._start_time < self.max_time\<close> when \<open>k\<close> iterations
    have completed.
\<close>

record ('m, 'x, 'l, 't) collab =
  sort_values :: "('x, 'l, 't) delayed list \<Rightarrow> ('x, 'l, 't) delayed list"
  partial_fit :: "'m \<Rightarrow> 'x list \<Rightarrow> 'l list \<Rightarrow> 'l list option \<Rightarrow> exc + 'm"
  predict :: "'m \<Rightarrow> 'x list \<Rightarrow> 'l prediction"
  type_name :: "'m \<Rightarrow> string"
  timer_ok :: "nat \<Rightarrow> bool"

text \<open>
  The evaluator object. \<^verbatim>\<open>current_timestamp\<close> and \<^verbatim>\<open>delay_queue\<close> are
  attributes that the class assigns only inside \<^verbatim>\<open>_train_and_test\<close>; \<open>None\<close>
  is the attribute not being there, and reading it raises AttributeError. The two lists of
  metric accumulators are indexed by the model; an accumulator is the sequence of the
  results added to it (\<^verbatim>\<open>add_result(y_true, y_pred)\<close>). \<^verbatim>\<open>n_models\<close> is
  the length of \<open>model\<close>. The running-time measurements are wall-clock bookkeeping
  and are left out.
\<close>

record ('m, 'x, 'l, 't) evaluator =
  n_wait :: int
  max_samples :: int
  pretrain_size :: nat
  batch_size :: nat
  metrics :: "string list"
  restart_stream :: bool
  task_type :: task
  stream :: "('x, 'l, 't) stream"
  model :: "'m list"
  global_sample_count :: int
  actual_max_samples :: int
  first_run :: bool
  update_count :: int
  current_timestamp :: "'t option"
  delay_queue :: "('x, 'l, 't) delayed list option"
  mean_eval_measurements :: "nat \<Rightarrow> ('l \<times> 'l) list"
  current_eval_measurements :: "nat \<Rightarrow> ('l \<times> 'l) list"
  trace :: "('x, 'l) event list"

section \<open>The delay queue\<close>

text \<open>
  \<^verbatim>\<open>np.array(m).T.tolist()\<close> on a list of lists of labels. Rows of one length
  make a two-dimensional array, which is transposed. Rows of different lengths make a
  one-dimensional array of list objects, which \<^verbatim>\<open>.T\<close> leaves as it is (the
  numpy of the time of the evaluator; later versions raise ValueError on such rows). Rows
  of different lengths arise only when the models return predictions of different
  lengths for one batch. A label is a scalar to numpy, as in the single-target tasks: with
  labels that are sequences themselves (the multi-target tasks) the array has three axes
  and \<^verbatim>\<open>.T\<close> reverses all three, which this definition does not describe.
\<close>

definition rectangular :: "'a list list \<Rightarrow> bool" where
  "rectangular m =
     (case m of [] \<Rightarrow> True | r # rs \<Rightarrow> list_all (\<lambda>r'. length r' = length r) rs)"

definition np_T :: "'a list list \<Rightarrow> 'a list list" where
  "np_T m = (if rectangular m then transpose m else m)"

definition sort_delay_queue ::
  "('m, 'x, 'l, 't) collab \<Rightarrow> ('m, 'x, 'l, 't) evaluator
     \<Rightarrow> exc \<times> ('m, 'x, 'l, 't) evaluator + ('m, 'x, 'l, 't) evaluator" where
  "sort_delay_queue c s =
     (case delay_queue s of
        None \<Rightarrow> Inl (AttributeError ''delay_queue'', s)
      | Some q \<Rightarrow> Inr (s\<lparr>delay_queue := Some (sort_values c q)\<rparr>))"

definition get_delayed_samples ::
  "('m, 'x, 'l, 't::linorder) evaluator
     \<Rightarrow> exc \<times> ('m, 'x, 'l, 't) evaluator
         + ('x list \<times> 'l list \<times> 'l list list) \<times> ('m, 'x, 'l, 't) evaluator" where
  "get_delayed_samples s =
     (case delay_queue s of
        None \<Rightarrow> Inl (AttributeError ''delay_queue'', s)
      | Some q \<Rightarrow>
          (case current_timestamp s of
             None \<Rightarrow> Inl (AttributeError ''current_timestamp'', s)
           | Some t \<Rightarrow>
               (let delayed_samples = filter (\<lambda>r. available_time r \<le> t) q;
                    s1 = s\<lparr>delay_queue := Some (filter (\<lambda>r. available_time r > t) q)\<rparr>;
                    y_pred_T = np_T (map y_pred delayed_samples)
                in Inr ((map X delayed_samples, map y_real delayed_samples, y_pred_T), s1))))"

text \<open>
  \<^verbatim>\<open>_update_delayed_queue\<close>: \<^verbatim>\<open>zip\<close> stops at the shortest column. The
  argument \<open>y_pred\<close> is \<open>None\<close> when \<^verbatim>\<open>_predict_samples\<close> returned nothing,
  and \<^verbatim>\<open>zip\<close> then raises TypeError.
\<close>

fun zip_rows ::
  "'x list \<Rightarrow> 'l list \<Rightarrow> 'l list list \<Rightarrow> 't list \<Rightarrow> 't list \<Rightarrow> ('x, 'l, 't) delayed list" where
  "zip_rows (x # xs) (l # ls) (p # ps) (a # as) (v # vs) =
     \<lparr>X = x, y_real = l, y_pred = p, arrival_time = a, available_time = v\<rparr>
       # zip_rows xs ls ps as vs"
| "zip_rows _ _ _ _ _ = []"

definition update_delayed_queue ::
  "('m, 'x, 'l, 't) collab \<Rightarrow> 'x list \<Rightarrow> 't list \<Rightarrow> 't list \<Rightarrow> 'l list \<Rightarrow> 'l list list option
     \<Rightarrow> ('m, 'x, 'l, 't) evaluator
     \<Rightarrow> exc \<times> ('m, 'x, 'l, 't) evaluator + ('m, 'x, 'l, 't) evaluator" where
  "update_delayed_queue c Xs arrival available ys preds s =
     (case preds of
        None \<Rightarrow> Inl (TypeError ''zip argument #3 must support iteration'', s)
      | Some ps \<Rightarrow>
          (let delay_frame = zip_rows Xs ys ps arrival available
           in case delay_queue s of
                None \<Rightarrow> Inl (AttributeError ''delay_queue'', s)
              | Some q \<Rightarrow> sort_delay_queue c (s\<lparr>delay_queue := Some (q @ delay_frame)\<rparr>)))"

section \<open>The steps of an iteration\<close>

text \<open>
  The loops \<^verbatim>\<open>for i in range(self.n_models)\<close> run over the list of indices
  \<open>[0..<length (model s)]\<close>. A call that raises ends the loop, and the object keeps
  what the earlier rounds did to it.
\<close>

fun fit_models ::
  "('m, 'x, 'l, 't) collab \<Rightarrow> 'x list \<Rightarrow> 'l list \<Rightarrow> 'l list option \<Rightarrow> nat list
     \<Rightarrow> ('m, 'x, 'l, 't) evaluator
     \<Rightarrow> exc \<times> ('m, 'x, 'l, 't) evaluator + ('m, 'x, 'l, 't) evaluator" where
  "fit_models c Xs ys cls [] s = Inr s"
| "fit_models c Xs ys cls (i # js) s =
     (let s1 = s\<lparr>trace := trace s @ [Partial_fit i Xs ys cls]\<rparr>
      in case partial_fit c (model s ! i) Xs ys cls of
           Inl e \<Rightarrow> Inl (e, s1)
         | Inr m \<Rightarrow> fit_models c Xs ys cls js (s1\<lparr>model := (model s)[i := m]\<rparr>))"

text \<open>
  \<^verbatim>\<open>_update_classifiers\<close>: on the first run of a task that is not a regression the
  classes of the stream are passed along; the test on the task type does not depend on
  the model and is taken out of the loop.
\<close>

definition update_classifiers ::
  "('m, 'x, 'l, 't) collab \<Rightarrow> 'x list \<Rightarrow> 'l list \<Rightarrow> ('m, 'x, 'l, 't) evaluator
     \<Rightarrow> exc \<times> ('m, 'x, 'l, 't) evaluator + ('m, 'x, 'l, 't) evaluator" where
  "update_classifiers c Xs ys s =
     (if length Xs > 0 then
        (if first_run s then
           (case fit_models c Xs ys
                   (if task_type s \<noteq> REGRESSION \<and> task_type s \<noteq> MULTI_TARGET_REGRESSION
                    then Some (target_values (stream s)) else None)
                   [0..<length (model s)] s of
              Inl es \<Rightarrow> Inl es
            | Inr s1 \<Rightarrow> Inr (s1\<lparr>first_run := False\<rparr>))
         else fit_models c Xs ys None [0..<length (model s)] s)
      else Inr s)"

text \<open>
  The inner loop of \<^verbatim>\<open>_update_metrics_delayed\<close>, for the model \<open>j\<close>: each
  round reads \<^verbatim>\<open>y_real_delayed[i]\<close> and \<^verbatim>\<open>y_pred_delayed[j][i]\<close>, which raise
  IndexError out of range, and adds the pair to both accumulators of the model.
\<close>

fun add_results_model ::
  "nat \<Rightarrow> 'l list \<Rightarrow> 'l list list \<Rightarrow> nat list \<Rightarrow> ('m, 'x, 'l, 't) evaluator
     \<Rightarrow> exc \<times> ('m, 'x, 'l, 't) evaluator + ('m, 'x, 'l, 't) evaluator" where
  "add_results_model j yr yp [] s = Inr s"
| "add_results_model j yr yp (i # is') s =
     (if i < length yr \<and> j < length yp \<and> i < length (yp ! j) then
        add_results_model j yr yp is'
          (s\<lparr>mean_eval_measurements :=
               (mean_eval_measurements s)(j := mean_eval_measurements s j @ [(yr ! i, yp ! j ! i)]),
             current_eval_measurements :=
               (current_eval_measurements s)(j := current_eval_measurements s j @ [(yr ! i, yp ! j ! i)])\<rparr>)
      else Inl (IndexError, s))"

fun add_results ::
  "'l list \<Rightarrow> 'l list list \<Rightarrow> nat list \<Rightarrow> ('m, 'x, 'l, 't) evaluator
     \<Rightarrow> exc \<times> ('m, 'x, 'l, 't) evaluator + ('m, 'x, 'l, 't) evaluator" where
  "add_results yr yp [] s = Inr s"
| "add_results yr yp (j # js) s =
     (case add_results_model j yr yp [0..<length (yp ! 0)] s of
        Inl es \<Rightarrow> Inl es
      | Inr s1 \<Rightarrow> add_results yr yp js s1)"

text \<open>
  \<^verbatim>\<open>_update_metrics_delayed\<close>. The call \<^verbatim>\<open>_check_progress\<close> of the base class
  only reports progress and is left out; \<^verbatim>\<open>_update_metrics()\<close> of the base class is
  the event \<open>Update_metrics\<close>. The test \<^verbatim>\<open>y_pred_delayed is not None\<close> holds
  whenever \<^verbatim>\<open>len(y_pred_delayed)\<close> has been computed. The operator
  \<^verbatim>\<open>%\<close> is evaluated first and raises ZeroDivisionError when \<^verbatim>\<open>n_wait\<close> is
  zero. The operator \<^verbatim>\<open>/\<close> is the true division; the quotient is taken exactly, as
  a rational number. Python rounds the quotient to a double before it compares; the two
  comparisons agree as long as the count is below \<open>2\<^sup>5\<^sup>3\<close>.
\<close>

definition update_metrics_delayed ::
  "'l list \<Rightarrow> 'l list list \<Rightarrow> ('m, 'x, 'l, 't) evaluator
     \<Rightarrow> exc \<times> ('m, 'x, 'l, 't) evaluator + ('m, 'x, 'l, 't) evaluator" where
  "update_metrics_delayed y_real_delayed y_pred_delayed s =
     (if length y_pred_delayed > 0 then
        (case add_results y_real_delayed y_pred_delayed [0..<length (model s)] s of
           Inl es \<Rightarrow> Inl es
         | Inr s1 \<Rightarrow>
             if n_wait s1 = 0 then Inl (ZeroDivisionError, s1)
             else if global_sample_count s1 mod n_wait s1 = 0
                     \<or> global_sample_count s1 \<ge> max_samples s1
                     \<or> (of_int (global_sample_count s1) / of_int (n_wait s1) :: rat)
                          > of_int (update_count s1 + 1)
                  then Inr (s1\<lparr>trace := trace s1 @ [Update_metrics],
                                update_count := update_count s1 + 1\<rparr>)
                  else Inr s1)
      else Inr s)"

definition unexpected_prediction :: "string \<Rightarrow> exc" where
  "unexpected_prediction nm = TypeError (''Unexpected prediction value from '' @ nm)"

text \<open>
  The loop of \<^verbatim>\<open>_predict_samples\<close>. The handler \<^verbatim>\<open>except TypeError\<close> replaces
  a TypeError, whether raised by \<^verbatim>\<open>predict\<close> or by \<^verbatim>\<open>extend\<close>, by one that
  names the type of the model; any other exception leaves the method as it is.
\<close>

fun predict_models ::
  "('m, 'x, 'l, 't) collab \<Rightarrow> 'x list \<Rightarrow> nat list \<Rightarrow> ('m, 'x, 'l, 't) evaluator
     \<Rightarrow> exc \<times> ('m, 'x, 'l, 't) evaluator + 'l list list \<times> ('m, 'x, 'l, 't) evaluator" where
  "predict_models c Xs [] s = Inr ([], s)"
| "predict_models c Xs (i # js) s =
     (let s1 = s\<lparr>trace := trace s @ [Predict i Xs]\<rparr>
      in case predict c (model s ! i) Xs of
           Labels ls \<Rightarrow>
             (case predict_models c Xs js s1 of
                Inl es \<Rightarrow> Inl es
              | Inr (rest, s2) \<Rightarrow> Inr (ls # rest, s2))
         | NotIterable \<Rightarrow> Inl (unexpected_prediction (type_name c (model s ! i)), s1)
         | PredictRaises e \<Rightarrow>
             (case e of
                TypeError msg \<Rightarrow> Inl (unexpected_prediction (type_name c (model s ! i)), s1)
              | _ \<Rightarrow> Inl (e, s1)))"

definition predict_samples ::
  "('m, 'x, 'l, 't) collab \<Rightarrow> 'x list option \<Rightarrow> ('m, 'x, 'l, 't) evaluator
     \<Rightarrow> exc \<times> ('m, 'x, 'l, 't) evaluator + 'l list list option \<times> ('m, 'x, 'l, 't) evaluator" where
  "predict_samples c Xo s =
     (case Xo of
        None \<Rightarrow> Inr (None, s)
      | Some Xs \<Rightarrow>
          (case predict_models c Xs [0..<length (model s)] s of
             Inl es \<Rightarrow> Inl es
           | Inr (prediction, s1) \<Rightarrow>
               Inr (Some (np_T prediction),
                    s1\<lparr>global_sample_count := global_sample_count s1 + int (batch_size s1)\<rparr>)))"

section \<open>The main loop\<close>

text \<open>\<^verbatim>\<open>xs[-1]\<close> raises IndexError on an empty list.\<close>

definition last_item :: "'a list \<Rightarrow> exc + 'a" where
  "last_item xs = (if xs = [] then Inl IndexError else Inr (last xs))"

text \<open>
  The body of the \<^verbatim>\<open>try\<close> after the batch has been pulled and the timestamp
  assigned (the source's lines from \<^verbatim>\<open>_get_delayed_samples()\<close> to the end of the
  block).
\<close>

definition iteration_steps ::
  "('m, 'x, 'l, 't::linorder) collab \<Rightarrow> ('x, 'l, 't) batch \<Rightarrow> ('m, 'x, 'l, 't) evaluator
     \<Rightarrow> exc \<times> ('m, 'x, 'l, 't) evaluator + ('m, 'x, 'l, 't) evaluator" where
  "iteration_steps c b s1 =
     (case get_delayed_samples s1 of
        Inl es \<Rightarrow> Inl es
      | Inr ((X_delayed, y_real_delayed, y_pred_delayed), s2) \<Rightarrow>
          (case update_metrics_delayed y_real_delayed y_pred_delayed s2 of
             Inl es \<Rightarrow> Inl es
           | Inr s3 \<Rightarrow>
               (case update_classifiers c X_delayed y_real_delayed s3 of
                  Inl es \<Rightarrow> Inl es
                | Inr s4 \<Rightarrow>
                    (case predict_samples c (Some (batch_X b)) s4 of
                       Inl es \<Rightarrow> Inl es
                     | Inr (preds, s5) \<Rightarrow>
                         update_delayed_queue c (batch_X b) (batch_arrival_time b)
                           (batch_available_time b) (batch_y b) preds s5))))"

text \<open>The body of the \<^verbatim>\<open>try\<close> block of the main loop.\<close>

definition iteration ::
  "('m, 'x, 'l, 't::linorder) collab \<Rightarrow> ('m, 'x, 'l, 't) evaluator
     \<Rightarrow> exc \<times> ('m, 'x, 'l, 't) evaluator + ('m, 'x, 'l, 't) evaluator" where
  "iteration c s =
     (let (b, st) = next_sample (batch_size s) (stream s);
          s0 = s\<lparr>stream := st\<rparr>
      in case last_item (batch_arrival_time b) of
           Inl e \<Rightarrow> Inl (e, s0)
         | Inr t \<Rightarrow> iteration_steps c b (s0\<lparr>current_timestamp := Some t\<rparr>))"

section \<open>What a step leaves alone\<close>

text \<open>
  The object a step ends with, whether it returns or raises. \<open>steady\<close> blanks the
  fields that the steps of an iteration assign after the timestamp; two objects with the
  same \<open>steady\<close> agree on the configuration, the stream and the timestamp.
\<close>

definition st_of :: "exc \<times> 's + 's \<Rightarrow> 's" where
  "st_of r = (case r of Inl (e, s) \<Rightarrow> s | Inr s \<Rightarrow> s)"

definition st_of_val :: "exc \<times> 's + 'a \<times> 's \<Rightarrow> 's" where
  "st_of_val r = (case r of Inl (e, s) \<Rightarrow> s | Inr (a, s) \<Rightarrow> s)"

lemma st_of_simps [simp]: "st_of (Inl (e, s)) = s" "st_of (Inr s) = s"
  by (simp_all add: st_of_def)

lemma st_of_val_simps [simp]: "st_of_val (Inl (e, s)) = s" "st_of_val (Inr (a, s)) = s"
  by (simp_all add: st_of_val_def)

definition steady :: "('m, 'x, 'l, 't) evaluator \<Rightarrow> ('m, 'x, 'l, 't) evaluator" where
  "steady s = s\<lparr>model := [], global_sample_count := 0, first_run := False, update_count := 0,
       delay_queue := None, mean_eval_measurements := (\<lambda>_. []),
       current_eval_measurements := (\<lambda>_. []), trace := []\<rparr>"

lemma fit_models_frame:
  "steady (st_of (fit_models c Xs ys cls js s)) = steady s
   \<and> length (model (st_of (fit_models c Xs ys cls js s))) = length (model s)
   \<and> global_sample_count (st_of (fit_models c Xs ys cls js s)) = global_sample_count s
   \<and> delay_queue (st_of (fit_models c Xs ys cls js s)) = delay_queue s"
  by (induction js arbitrary: s) (auto simp: steady_def Let_def split: sum.splits)

lemma add_results_model_frame:
  "steady (st_of (add_results_model j yr yp js s)) = steady s
   \<and> model (st_of (add_results_model j yr yp js s)) = model s
   \<and> trace (st_of (add_results_model j yr yp js s)) = trace s
   \<and> first_run (st_of (add_results_model j yr yp js s)) = first_run s
   \<and> update_count (st_of (add_results_model j yr yp js s)) = update_count s
   \<and> global_sample_count (st_of (add_results_model j yr yp js s)) = global_sample_count s
   \<and> delay_queue (st_of (add_results_model j yr yp js s)) = delay_queue s"
  by (induction js arbitrary: s) (auto simp: steady_def)

lemma add_results_frame:
  "steady (st_of (add_results yr yp js s)) = steady s
   \<and> model (st_of (add_results yr yp js s)) = model s
   \<and> trace (st_of (add_results yr yp js s)) = trace s
   \<and> first_run (st_of (add_results yr yp js s)) = first_run s
   \<and> update_count (st_of (add_results yr yp js s)) = update_count s
   \<and> global_sample_count (st_of (add_results yr yp js s)) = global_sample_count s
   \<and> delay_queue (st_of (add_results yr yp js s)) = delay_queue s"
proof (induction js arbitrary: s)
  case Nil
  show ?case by simp
next
  case (Cons j js)
  show ?case
  proof (cases "add_results_model j yr yp [0..<length (yp ! 0)] s")
    case (Inl es)
    then show ?thesis
      using add_results_model_frame[of j yr yp "[0..<length (yp ! 0)]" s]
      by (cases es) simp
  next
    case (Inr s1)
    then show ?thesis
      using add_results_model_frame[of j yr yp "[0..<length (yp ! 0)]" s] Cons.IH[of s1]
      by simp
  qed
qed

lemma predict_models_frame:
  "steady (st_of_val (predict_models c Xs js s)) = steady s
   \<and> model (st_of_val (predict_models c Xs js s)) = model s
   \<and> first_run (st_of_val (predict_models c Xs js s)) = first_run s
   \<and> update_count (st_of_val (predict_models c Xs js s)) = update_count s
   \<and> global_sample_count (st_of_val (predict_models c Xs js s)) = global_sample_count s
   \<and> delay_queue (st_of_val (predict_models c Xs js s)) = delay_queue s
   \<and> mean_eval_measurements (st_of_val (predict_models c Xs js s)) = mean_eval_measurements s
   \<and> current_eval_measurements (st_of_val (predict_models c Xs js s)) = current_eval_measurements s"
proof (induction js arbitrary: s)
  case Nil
  show ?case by simp
next
  case (Cons i js)
  let ?s1 = "s\<lparr>trace := trace s @ [Predict i Xs]\<rparr>"
  show ?case
  proof (cases "predict c (model s ! i) Xs")
    case (Labels ls)
    show ?thesis
    proof (cases "predict_models c Xs js ?s1")
      case (Inl es)
      then show ?thesis using Labels Cons.IH[of ?s1] by (cases es) (simp add: steady_def)
    next
      case (Inr vs)
      then show ?thesis using Labels Cons.IH[of ?s1] by (cases vs) (simp add: steady_def)
    qed
  next
    case NotIterable
    then show ?thesis by (simp add: steady_def)
  next
    case (PredictRaises e)
    then show ?thesis by (cases e) (simp_all add: steady_def)
  qed
qed


lemma update_classifiers_frame:
  "steady (st_of (update_classifiers c Xs ys s)) = steady s
   \<and> length (model (st_of (update_classifiers c Xs ys s))) = length (model s)
   \<and> global_sample_count (st_of (update_classifiers c Xs ys s)) = global_sample_count s
   \<and> delay_queue (st_of (update_classifiers c Xs ys s)) = delay_queue s"
proof -
  let ?cls = "if task_type s \<noteq> REGRESSION \<and> task_type s \<noteq> MULTI_TARGET_REGRESSION
              then Some (target_values (stream s)) else None"
  note f1 = fit_models_frame[of c Xs ys ?cls "[0..<length (model s)]" s]
  note f2 = fit_models_frame[of c Xs ys None "[0..<length (model s)]" s]
  show ?thesis
  proof (cases "fit_models c Xs ys ?cls [0..<length (model s)] s")
    case (Inl es)
    then show ?thesis using f1 f2 by (cases es) (simp add: update_classifiers_def)
  next
    case (Inr s1)
    then show ?thesis using f1 f2 by (simp add: update_classifiers_def steady_def)
  qed
qed

lemma update_metrics_delayed_frame:
  "steady (st_of (update_metrics_delayed yr yp s)) = steady s
   \<and> model (st_of (update_metrics_delayed yr yp s)) = model s
   \<and> first_run (st_of (update_metrics_delayed yr yp s)) = first_run s
   \<and> global_sample_count (st_of (update_metrics_delayed yr yp s)) = global_sample_count s
   \<and> delay_queue (st_of (update_metrics_delayed yr yp s)) = delay_queue s"
proof (cases "add_results yr yp [0..<length (model s)] s")
  case (Inl es)
  then show ?thesis using add_results_frame[of yr yp "[0..<length (model s)]" s]
    by (cases es) (simp add: update_metrics_delayed_def)
next
  case (Inr s1)
  then show ?thesis using add_results_frame[of yr yp "[0..<length (model s)]" s]
    by (simp add: update_metrics_delayed_def steady_def)
qed

lemma predict_samples_frame:
  "steady (st_of_val (predict_samples c Xo s)) = steady s
   \<and> model (st_of_val (predict_samples c Xo s)) = model s
   \<and> first_run (st_of_val (predict_samples c Xo s)) = first_run s
   \<and> update_count (st_of_val (predict_samples c Xo s)) = update_count s
   \<and> delay_queue (st_of_val (predict_samples c Xo s)) = delay_queue s
   \<and> mean_eval_measurements (st_of_val (predict_samples c Xo s)) = mean_eval_measurements s
   \<and> current_eval_measurements (st_of_val (predict_samples c Xo s)) = current_eval_measurements s"
proof (cases Xo)
  case None
  then show ?thesis by (simp add: predict_samples_def)
next
  case (Some Xs)
  show ?thesis
  proof (cases "predict_models c Xs [0..<length (model s)] s")
    case (Inl es)
    then show ?thesis using Some predict_models_frame[of c Xs "[0..<length (model s)]" s]
      by (cases es) (simp add: predict_samples_def)
  next
    case (Inr vs)
    then show ?thesis using Some predict_models_frame[of c Xs "[0..<length (model s)]" s]
      by (cases vs) (simp add: predict_samples_def steady_def)
  qed
qed

lemma get_delayed_samples_frame:
  "steady (st_of_val (get_delayed_samples s)) = steady s
   \<and> model (st_of_val (get_delayed_samples s)) = model s
   \<and> trace (st_of_val (get_delayed_samples s)) = trace s
   \<and> first_run (st_of_val (get_delayed_samples s)) = first_run s
   \<and> update_count (st_of_val (get_delayed_samples s)) = update_count s
   \<and> global_sample_count (st_of_val (get_delayed_samples s)) = global_sample_count s
   \<and> mean_eval_measurements (st_of_val (get_delayed_samples s)) = mean_eval_measurements s
   \<and> current_eval_measurements (st_of_val (get_delayed_samples s)) = current_eval_measurements s"
  by (simp add: get_delayed_samples_def steady_def Let_def split: option.splits)

lemma sort_delay_queue_frame:
  "steady (st_of (sort_delay_queue c s)) = steady s
   \<and> model (st_of (sort_delay_queue c s)) = model s
   \<and> trace (st_of (sort_delay_queue c s)) = trace s
   \<and> first_run (st_of (sort_delay_queue c s)) = first_run s
   \<and> update_count (st_of (sort_delay_queue c s)) = update_count s
   \<and> global_sample_count (st_of (sort_delay_queue c s)) = global_sample_count s
   \<and> mean_eval_measurements (st_of (sort_delay_queue c s)) = mean_eval_measurements s
   \<and> current_eval_measurements (st_of (sort_delay_queue c s)) = current_eval_measurements s"
  by (simp add: sort_delay_queue_def steady_def split: option.splits)

lemma update_delayed_queue_frame:
  "steady (st_of (update_delayed_queue c Xs ar av ys preds s)) = steady s
   \<and> model (st_of (update_delayed_queue c Xs ar av ys preds s)) = model s
   \<and> trace (st_of (update_delayed_queue c Xs ar av ys preds s)) = trace s
   \<and> first_run (st_of (update_delayed_queue c Xs ar av ys preds s)) = first_run s
   \<and> update_count (st_of (update_delayed_queue c Xs ar av ys preds s)) = update_count s
   \<and> global_sample_count (st_of (update_delayed_queue c Xs ar av ys preds s)) = global_sample_count s
   \<and> mean_eval_measurements (st_of (update_delayed_queue c Xs ar av ys preds s)) = mean_eval_measurements s
   \<and> current_eval_measurements (st_of (update_delayed_queue c Xs ar av ys preds s)) = current_eval_measurements s"
  by (simp add: update_delayed_queue_def sort_delay_queue_def steady_def Let_def split: option.splits)


lemma iteration_steps_frame:
  "steady (st_of (iteration_steps c b s)) = steady s
   \<and> length (model (st_of (iteration_steps c b s))) = length (model s)"
proof (cases "get_delayed_samples s")
  case (Inl es)
  then show ?thesis using get_delayed_samples_frame[of s]
    by (cases es) (simp add: iteration_steps_def)
next
  case (Inr vs2)
  obtain Xd yd pd s2 where vs2: "vs2 = ((Xd, yd, pd), s2)"
    by (cases vs2) auto
  have g: "steady s2 = steady s" "model s2 = model s"
    using get_delayed_samples_frame[of s] Inr vs2 by simp_all
  show ?thesis
  proof (cases "update_metrics_delayed yd pd s2")
    case (Inl es)
    then show ?thesis using Inr vs2 g update_metrics_delayed_frame[of yd pd s2]
      by (cases es) (simp add: iteration_steps_def)
  next
    case s3: (Inr s3)
    have m: "steady s3 = steady s" "model s3 = model s"
      using update_metrics_delayed_frame[of yd pd s2] s3 g by simp_all
    show ?thesis
    proof (cases "update_classifiers c Xd yd s3")
      case (Inl es)
      then show ?thesis using Inr vs2 s3 m update_classifiers_frame[of c Xd yd s3]
        by (cases es) (simp add: iteration_steps_def)
    next
      case s4: (Inr s4)
      have u: "steady s4 = steady s" "length (model s4) = length (model s)"
        using update_classifiers_frame[of c Xd yd s3] s4 m by simp_all
      show ?thesis
      proof (cases "predict_samples c (Some (batch_X b)) s4")
        case (Inl es)
        then show ?thesis
          using Inr vs2 s3 s4 u predict_samples_frame[of c "Some (batch_X b)" s4]
          by (cases es) (simp add: iteration_steps_def)
      next
        case vs5: (Inr vs5)
        obtain preds s5 where v5: "vs5 = (preds, s5)" by (cases vs5) auto
        have p: "steady s5 = steady s" "length (model s5) = length (model s)"
          using predict_samples_frame[of c "Some (batch_X b)" s4] vs5 v5 u by simp_all
        show ?thesis
          using Inr vs2 s3 s4 vs5 v5 p
            update_delayed_queue_frame[of c "batch_X b" "batch_arrival_time b"
              "batch_available_time b" "batch_y b" preds s5]
          by (simp add: iteration_steps_def)
      qed
    qed
  qed
qed

lemma steady_stream: "steady s' = steady s \<Longrightarrow> stream s' = stream s"
  by (drule arg_cong[where f = stream]) (simp add: steady_def)

lemma iteration_consumes:
  assumes "iteration c s = Inr s'"
  shows "length (samples (stream s')) - sample_idx (stream s')
           < length (samples (stream s)) - sample_idx (stream s)"
proof -
  obtain b st where ns: "next_sample (batch_size s) (stream s) = (b, st)"
    by (cases "next_sample (batch_size s) (stream s)") auto
  let ?rows = "take (batch_size s) (drop (sample_idx (stream s)) (samples (stream s)))"
  have b: "batch_arrival_time b = map (\<lambda>(x, a, v, l). a) ?rows"
    and st: "st = (stream s)\<lparr>sample_idx := sample_idx (stream s) + length ?rows\<rparr>"
    using ns by (auto simp: next_sample_def Let_def)
  from assms ns have ne: "batch_arrival_time b \<noteq> []"
    by (auto simp: iteration_def last_item_def split: if_splits)
  with b have rows: "?rows \<noteq> []" by auto
  from assms ns ne have
    "iteration_steps c b (s\<lparr>stream := st, current_timestamp := Some (last (batch_arrival_time b))\<rparr>) = Inr s'"
    by (simp add: iteration_def last_item_def)
  with iteration_steps_frame[of c b "s\<lparr>stream := st, current_timestamp := Some (last (batch_arrival_time b))\<rparr>"]
  have "steady s' = steady (s\<lparr>stream := st, current_timestamp := Some (last (batch_arrival_time b))\<rparr>)"
    by simp
  then have "stream s' = st" by (drule_tac steady_stream) simp
  moreover have "0 < length ?rows" "length ?rows \<le> length (samples (stream s)) - sample_idx (stream s)"
    using rows by simp_all
  ultimately show ?thesis using st by (auto simp: min_def)
qed

text \<open>
  What a step adds to the trace: training adds calls of \<^verbatim>\<open>partial_fit\<close> on the
  arguments it was given, the update of the metrics adds at most the snapshot, and
  prediction adds calls of \<^verbatim>\<open>predict\<close> on the batch, one for every model when it
  returns.
\<close>

lemma fit_models_trace:
  "\<exists>evs. trace (st_of (fit_models c Xs ys cls js s)) = trace s @ evs
         \<and> (\<forall>e\<in>set evs. \<exists>i. e = Partial_fit i Xs ys cls)"
proof (induction js arbitrary: s)
  case Nil
  show ?case by simp
next
  case (Cons i js)
  let ?s1 = "s\<lparr>trace := trace s @ [Partial_fit i Xs ys cls]\<rparr>"
  show ?case
  proof (cases "partial_fit c (model s ! i) Xs ys cls")
    case (Inl e)
    then have "trace (st_of (fit_models c Xs ys cls (i # js) s))
                 = trace s @ [Partial_fit i Xs ys cls]"
      by simp
    then show ?thesis by (intro exI[of _ "[Partial_fit i Xs ys cls]"]) simp
  next
    case (Inr m)
    from Cons.IH[of "?s1\<lparr>model := (model s)[i := m]\<rparr>"]
    obtain evs where
      "trace (st_of (fit_models c Xs ys cls js (?s1\<lparr>model := (model s)[i := m]\<rparr>)))
         = trace s @ Partial_fit i Xs ys cls # evs"
      and "\<forall>e\<in>set evs. \<exists>i. e = Partial_fit i Xs ys cls"
      by auto
    then have "trace (st_of (fit_models c Xs ys cls (i # js) s))
                 = trace s @ (Partial_fit i Xs ys cls # evs)
               \<and> (\<forall>e\<in>set (Partial_fit i Xs ys cls # evs). \<exists>i. e = Partial_fit i Xs ys cls)"
      using Inr by simp
    then show ?thesis by blast
  qed
qed

lemma update_classifiers_trace:
  "\<exists>evs. trace (st_of (update_classifiers c Xs ys s)) = trace s @ evs
         \<and> (\<forall>e\<in>set evs. \<exists>i cls. e = Partial_fit i Xs ys cls)"
proof -
  define cls1 where "cls1 = (if task_type s \<noteq> REGRESSION \<and> task_type s \<noteq> MULTI_TARGET_REGRESSION
              then Some (target_values (stream s)) else None)"
  define js where "js = [0..<length (model s)]"
  have "trace (st_of (update_classifiers c Xs ys s)) = trace s
        \<or> trace (st_of (update_classifiers c Xs ys s)) = trace (st_of (fit_models c Xs ys cls1 js s))
        \<or> trace (st_of (update_classifiers c Xs ys s)) = trace (st_of (fit_models c Xs ys None js s))"
  proof (cases "fit_models c Xs ys cls1 js s")
    case (Inl es)
    then show ?thesis
      unfolding update_classifiers_def cls1_def[symmetric] js_def[symmetric]
      by (cases es) simp
  next
    case (Inr s1)
    then show ?thesis
      unfolding update_classifiers_def cls1_def[symmetric] js_def[symmetric]
      by simp
  qed
  moreover have "\<exists>evs. trace (st_of (fit_models c Xs ys cls js s)) = trace s @ evs
         \<and> (\<forall>e\<in>set evs. \<exists>i cls. e = Partial_fit i Xs ys cls)" for cls
  proof -
    from fit_models_trace[of c Xs ys cls js s] obtain evs where
      "trace (st_of (fit_models c Xs ys cls js s)) = trace s @ evs"
      "\<forall>e\<in>set evs. \<exists>i. e = Partial_fit i Xs ys cls"
      by blast
    then show ?thesis by (intro exI[of _ evs]) blast
  qed
  moreover have "\<exists>evs. trace s = trace s @ evs
         \<and> (\<forall>e\<in>set evs. \<exists>i cls. e = Partial_fit i Xs ys cls)"
    by (intro exI[of _ "[]"]) simp
  ultimately show ?thesis by metis
qed

lemma update_metrics_delayed_trace:
  "\<exists>evs. trace (st_of (update_metrics_delayed yr yp s)) = trace s @ evs
         \<and> (\<forall>e\<in>set evs. e = Update_metrics)"
proof (cases "add_results yr yp [0..<length (model s)] s")
  case (Inl es)
  then show ?thesis using add_results_frame[of yr yp "[0..<length (model s)]" s]
    by (cases es) (simp add: update_metrics_delayed_def)
next
  case (Inr s1)
  then have "trace s1 = trace s"
    using add_results_frame[of yr yp "[0..<length (model s)]" s] by simp
  then have "trace (st_of (update_metrics_delayed yr yp s)) = trace s
             \<or> trace (st_of (update_metrics_delayed yr yp s)) = trace s @ [Update_metrics]"
    using Inr by (simp add: update_metrics_delayed_def)
  then show ?thesis
  proof
    assume "trace (st_of (update_metrics_delayed yr yp s)) = trace s"
    then show ?thesis by (intro exI[of _ "[]"]) simp
  next
    assume "trace (st_of (update_metrics_delayed yr yp s)) = trace s @ [Update_metrics]"
    then show ?thesis by (intro exI[of _ "[Update_metrics]"]) simp
  qed
qed

lemma predict_models_Inr:
  "predict_models c Xs js s = Inr (ps, s')
     \<Longrightarrow> trace s' = trace s @ map (\<lambda>i. Predict i Xs) js \<and> length ps = length js"
proof (induction js arbitrary: s ps)
  case Nil
  then show ?case by simp
next
  case (Cons i js)
  let ?s1 = "s\<lparr>trace := trace s @ [Predict i Xs]\<rparr>"
  obtain ls where ls: "predict c (model s ! i) Xs = Labels ls"
  proof (cases "predict c (model s ! i) Xs")
    case (Labels ls)
    then show ?thesis using that by simp
  next
    case NotIterable
    with Cons.prems show ?thesis by simp
  next
    case (PredictRaises e)
    with Cons.prems show ?thesis by (cases e) simp_all
  qed
  obtain rest where rest: "predict_models c Xs js ?s1 = Inr (rest, s')" "ps = ls # rest"
  proof (cases "predict_models c Xs js ?s1")
    case (Inl es)
    with Cons.prems ls show ?thesis by simp
  next
    case (Inr vs)
    with Cons.prems ls that show ?thesis by (cases vs) simp
  qed
  from Cons.IH[OF rest(1)] rest(2) show ?case by simp
qed

lemma predict_models_trace:
  "\<exists>evs. trace (st_of_val (predict_models c Xs js s)) = trace s @ evs
         \<and> (\<forall>e\<in>set evs. \<exists>i. e = Predict i Xs)"
proof (induction js arbitrary: s)
  case Nil
  show ?case by simp
next
  case (Cons i js)
  let ?s1 = "s\<lparr>trace := trace s @ [Predict i Xs]\<rparr>"
  from Cons.IH[of ?s1] obtain evs where
    evs: "trace (st_of_val (predict_models c Xs js ?s1)) = trace s @ Predict i Xs # evs"
      "\<forall>e\<in>set evs. \<exists>i. e = Predict i Xs"
    by auto
  have "trace (st_of_val (predict_models c Xs (i # js) s)) = trace s @ [Predict i Xs]
        \<or> trace (st_of_val (predict_models c Xs (i # js) s)) = trace s @ Predict i Xs # evs"
  proof (cases "predict c (model s ! i) Xs")
    case (Labels ls)
    show ?thesis
    proof (cases "predict_models c Xs js ?s1")
      case (Inl es)
      then show ?thesis using Labels evs(1) by (cases es) simp
    next
      case (Inr vs)
      then show ?thesis using Labels evs(1) by (cases vs) simp
    qed
  next
    case NotIterable
    then show ?thesis by simp
  next
    case (PredictRaises e)
    then show ?thesis by (cases e) simp_all
  qed
  then show ?case
  proof
    assume "trace (st_of_val (predict_models c Xs (i # js) s)) = trace s @ [Predict i Xs]"
    then show ?thesis by (intro exI[of _ "[Predict i Xs]"]) simp
  next
    assume "trace (st_of_val (predict_models c Xs (i # js) s)) = trace s @ Predict i Xs # evs"
    then have "trace (st_of_val (predict_models c Xs (i # js) s)) = trace s @ (Predict i Xs # evs)
       \<and> (\<forall>e\<in>set (Predict i Xs # evs). \<exists>i. e = Predict i Xs)"
      using evs(2) by simp
    then show ?thesis by blast
  qed
qed

text \<open>
  The main loop. The three tests are joined by \<^verbatim>\<open>&\<close>, so all of them are
  evaluated. The handler prints the exception and leaves the loop; its test
  \<^verbatim>\<open>exc is KeyboardInterrupt\<close> compares the exception object with the class and is
  false for every raised exception, so the handler never calls
  \<^verbatim>\<open>_update_metrics()\<close>. An iteration that returns has consumed at least one
  sample of the stream, which is why the loop ends.
\<close>

function running_loop ::
  "('m, 'x, 'l, 't::linorder) collab \<Rightarrow> nat \<Rightarrow> ('m, 'x, 'l, 't) evaluator
     \<Rightarrow> ('m, 'x, 'l, 't) evaluator" where
  "running_loop c k s =
     (if global_sample_count s < actual_max_samples s \<and> timer_ok c k
         \<and> has_more_samples (stream s)
      then (case iteration c s of
              Inl (e, s') \<Rightarrow> s'\<lparr>trace := trace s' @ [Print_exc e]\<rparr>
            | Inr s' \<Rightarrow> running_loop c (Suc k) s')
      else s)"
  by pat_completeness auto
termination
  by (relation "measure (\<lambda>(c, k, s). length (samples (stream s)) - sample_idx (stream s))")
     (auto dest: iteration_consumes)

declare running_loop.simps [simp del]

section \<open>Pretraining, draining and the whole run\<close>

text \<open>\<^verbatim>\<open>numpy.unique\<close>: the sorted distinct values.\<close>

definition unique :: "'l::linorder list \<Rightarrow> 'l list" where
  "unique xs = sorted_list_of_set (set xs)"

text \<open>
  The block \<^verbatim>\<open>if self.pretrain_size > 0\<close>. It is outside the \<^verbatim>\<open>try\<close>, so
  an exception raised here leaves \<^verbatim>\<open>_train_and_test\<close>.
\<close>

definition pretrain ::
  "('m, 'x, 'l::linorder, 't) collab \<Rightarrow> ('m, 'x, 'l, 't) evaluator
     \<Rightarrow> exc \<times> ('m, 'x, 'l, 't) evaluator + ('m, 'x, 'l, 't) evaluator" where
  "pretrain c s =
     (if pretrain_size s > 0 then
        (let s0 = s\<lparr>trace := trace s @ [Print_format ''Pre-training on {} sample(s).'' (pretrain_size s)]\<rparr>;
             (b, st) = next_sample (pretrain_size s) (stream s);
             s1 = s0\<lparr>stream := st\<rparr>;
             classes =
               (if task_type s = CLASSIFICATION then Some (target_values (stream s))
                else if task_type s = MULTI_TARGET_CLASSIFICATION
                     then Some (unique (target_values (stream s)))
                     else None)
         in case fit_models c (batch_X b) (batch_y b) classes [0..<length (model s)] s1 of
              Inl es \<Rightarrow> Inl es
            | Inr s2 \<Rightarrow>
                (let s3 = s2\<lparr>global_sample_count := global_sample_count s2 + int (pretrain_size s2),
                              first_run := False\<rparr>
                 in case last_item (batch_arrival_time b) of
                      Inl e \<Rightarrow> Inl (e, s3)
                    | Inr t \<Rightarrow>
                        sort_delay_queue c (s3\<lparr>current_timestamp := Some t, delay_queue := Some []\<rparr>)))
      else Inr s)"

text \<open>
  The loop that drops the leftover records in chunks of \<^verbatim>\<open>batch_size\<close>
  (\<^verbatim>\<open>delay_queue.drop(delay_queue.index[[np.arange(batch_size)]])\<close> drops the first
  \<^verbatim>\<open>batch_size\<close> rows; the chunk \<^verbatim>\<open>samples\<close> is never read). With a batch
  size of zero the body drops nothing and the loop of the source never ends on a
  non-empty queue: the value \<open>None\<close>.
\<close>

function drain_chunks :: "nat \<Rightarrow> 'a list \<Rightarrow> 'a list option" where
  "drain_chunks bs q =
     (if length q > 0 \<and> int (length q) - int bs > 0
      then (if bs = 0 then None else drain_chunks bs (drop bs q))
      else Some q)"
  by pat_completeness auto
termination
  by (relation "measure (\<lambda>(bs, q). length q)") auto

declare drain_chunks.simps [simp del]

text \<open>
  The part of \<^verbatim>\<open>_train_and_test\<close> after the main loop and before the file buffer
  is flushed. \<open>None\<close> is the loop that never ends.
\<close>

definition draining ::
  "('m, 'x, 'l, 't) collab \<Rightarrow> ('m, 'x, 'l, 't) evaluator
     \<Rightarrow> (exc \<times> ('m, 'x, 'l, 't) evaluator + ('m, 'x, 'l, 't) evaluator) option" where
  "draining c s =
     (case delay_queue s of
        None \<Rightarrow> Some (Inl (AttributeError ''delay_queue'', s))
      | Some q \<Rightarrow>
          if length q > 0 then
            (case sort_delay_queue c s of
               Inl es \<Rightarrow> Some (Inl es)
             | Inr s1 \<Rightarrow>
                 (case delay_queue s1 of
                    None \<Rightarrow> Some (Inl (AttributeError ''delay_queue'', s1))
                  | Some q1 \<Rightarrow>
                      (case drain_chunks (batch_size s1) q1 of
                         None \<Rightarrow> None
                       | Some q2 \<Rightarrow> Some (Inr (s1\<lparr>delay_queue := Some q2\<rparr>)))))
          else Some (Inr s))"

text \<open>
  Modelled from the spec: the module \<^verbatim>\<open>constants\<close> is not part of the sources. The
  strings are the names the docstring of the class gives to the metrics, and the name of
  the data-points mode of the spec.
\<close>

definition ACCURACY :: string where
  "ACCURACY = ''accuracy''"

definition KAPPA :: string where
  "KAPPA = ''kappa''"

definition DATA_POINTS :: string where
  "DATA_POINTS = ''data_points''"

text \<open>The end of \<^verbatim>\<open>_train_and_test\<close>, from \<^verbatim>\<open>_flush_file_buffer()\<close> on.\<close>

definition finalize :: "('m, 'x, 'l, 't) evaluator \<Rightarrow> ('m, 'x, 'l, 't) evaluator" where
  "finalize s =
     (let s1 = s\<lparr>trace := trace s @ [Flush_file_buffer]\<rparr>;
          s2 = (if set (metrics s1) - {DATA_POINTS} \<noteq> {}
                then s1\<lparr>trace := trace s1 @ [Evaluation_summary]\<rparr>
                else s1\<lparr>trace := trace s1 @ [Print ''Done'']\<rparr>)
      in if restart_stream s2 then s2\<lparr>stream := restart (stream s2)\<rparr> else s2)"

text \<open>
  How a call of \<^verbatim>\<open>_train_and_test\<close> ends: it returns \<^verbatim>\<open>self.model\<close> (the
  field \<open>model\<close> of the object), an exception leaves it, or it does not end.
\<close>

datatype 'a outcome =
    Returns 'a
  | Raises exc 'a
  | Hangs

definition train_and_test ::
  "('m, 'x, 'l::linorder, 't::linorder) collab \<Rightarrow> ('m, 'x, 'l, 't) evaluator
     \<Rightarrow> ('m, 'x, 'l, 't) evaluator outcome" where
  "train_and_test c s =
     (let s0 = s\<lparr>trace := trace s @ [Print ''Prequential Evaluation Delayed'',
                    Print_format ''Evaluating {} target(s).'' (n_targets (stream s))]\<rparr>;
          n = n_remaining_samples (stream s0);
          s1 = s0\<lparr>actual_max_samples := (if n = - 1 \<or> n > max_samples s0 then max_samples s0 else n),
                   first_run := True\<rparr>
      in case pretrain c s1 of
           Inl (e, s') \<Rightarrow> Raises e s'
         | Inr s2 \<Rightarrow>
             (let s3 = s2\<lparr>update_count := 0, trace := trace s2 @ [Print ''Evaluating...'']\<rparr>;
                  s4 = running_loop c 0 s3
              in case draining c s4 of
                   None \<Rightarrow> Hangs
                 | Some (Inl (e, s')) \<Rightarrow> Raises e s'
                 | Some (Inr s5) \<Rightarrow> Returns (finalize s5)))"

text \<open>The object a call ends with, when it ends.\<close>

definition final_state :: "'a outcome \<Rightarrow> 'a option" where
  "final_state r = (case r of Returns s \<Rightarrow> Some s | Raises e s \<Rightarrow> Some s | Hangs \<Rightarrow> None)"

section \<open>The constructor\<close>

text \<open>
  \<^verbatim>\<open>__init__\<close> stores the list it is given, so the lists live in a store: a list
  object is an address, the store is the list of the objects allocated so far, and a new
  object takes the next address. The argument \<^verbatim>\<open>metrics\<close> is \<^verbatim>\<open>None\<close>, a
  list object, or a value of another type. The arguments \<^verbatim>\<open>max_time\<close> and
  \<^verbatim>\<open>output_file\<close> are only stored and are left out.
\<close>

datatype metrics_arg =
    Metrics_None
  | Metrics_list nat
  | Metrics_other

record init_args =
  arg_n_wait :: int
  arg_max_samples :: int
  arg_batch_size :: nat
  arg_pretrain_size :: nat
  arg_metrics :: metrics_arg
  arg_show_plot :: bool
  arg_restart_stream :: bool
  arg_data_points_for_classification :: bool

record attrs =
  self_n_wait :: int
  self_max_samples :: int
  self_pretrain_size :: nat
  self_batch_size :: nat
  self_show_plot :: bool
  self_data_points_for_classification :: bool
  self_metrics :: nat
  self_restart_stream :: bool
  self_n_sliding :: int

definition alloc :: "string list list \<Rightarrow> string list \<Rightarrow> nat \<times> string list list" where
  "alloc h v = (length h, h @ [v])"

definition with_metrics :: "init_args \<Rightarrow> nat \<Rightarrow> attrs" where
  "with_metrics a m =
     \<lparr>self_n_wait = arg_n_wait a, self_max_samples = arg_max_samples a,
      self_pretrain_size = arg_pretrain_size a, self_batch_size = arg_batch_size a,
      self_show_plot = arg_show_plot a,
      self_data_points_for_classification = arg_data_points_for_classification a,
      self_metrics = m, self_restart_stream = arg_restart_stream a,
      self_n_sliding = arg_n_wait a\<rparr>"

definition metrics_type_error :: exc where
  "metrics_type_error = ValueError ''Attribute 'metrics' must be 'None' or 'list', passed {}''"

definition init :: "init_args \<Rightarrow> string list list \<Rightarrow> exc + attrs \<times> string list list" where
  "init a h =
     (if \<not> arg_data_points_for_classification a then
        (case arg_metrics a of
           Metrics_None \<Rightarrow>
             (let (m, h1) = alloc h [ACCURACY, KAPPA] in Inr (with_metrics a m, h1))
         | Metrics_list m \<Rightarrow> Inr (with_metrics a m, h)
         | Metrics_other \<Rightarrow> Inl metrics_type_error)
      else
        (case arg_metrics a of
           Metrics_None \<Rightarrow>
             (let (m, h1) = alloc h [DATA_POINTS] in Inr (with_metrics a m, h1))
         | Metrics_list m \<Rightarrow> Inr (with_metrics a m, h[m := h ! m @ [DATA_POINTS]])
         | Metrics_other \<Rightarrow> Inl metrics_type_error))"

section \<open>What is asked of the sort\<close>

text \<open>
  \<open>sort_contract\<close> is what sorting by \<^verbatim>\<open>available_time\<close> gives whatever the
  algorithm: the same rows, in non-decreasing order of \<^verbatim>\<open>available_time\<close>.
\<close>

definition sort_contract :: "('m, 'x, 'l, 't::linorder) collab \<Rightarrow> bool" where
  "sort_contract c =
     (\<forall>q. mset (sort_values c q) = mset q \<and> sorted (map available_time (sort_values c q)))"

section \<open>The default sort of the library\<close>

text \<open>
  \<^verbatim>\<open>_sort_delay_queue\<close> calls \<^verbatim>\<open>sort_values(by='available_time')\<close> and passes
  no \<^verbatim>\<open>kind\<close>. pandas then asks numpy for the permutation that sorts the column of
  keys (\<^verbatim>\<open>argsort\<close> with the kind \<^verbatim>\<open>quicksort\<close>), and numpy's quicksort is an
  introsort on the array of row indices (\<^verbatim>\<open>aquicksort\<close> in
  \<^verbatim>\<open>npysort/quicksort\<close>): a range of more than 17 indices is partitioned around the
  median of its first, middle and last key, the larger part is pushed on a stack and the
  smaller one is treated next; a range of at most 17 indices is sorted by insertion; a
  range taken from the stack when the depth limit is used up is sorted by heapsort. The
  library is not among the sources of the evaluator. The definitions of this section
  follow that routine, because the order in which rows with equal keys leave the sort is
  decided there and nowhere else.

  The routine moves row indices and compares the keys of the rows they name; here the
  rows themselves are moved and \<open>key\<close> reads the key of a row. A range
  \<^verbatim>\<open>pl..pr\<close> of the index array is a list, with \<^verbatim>\<open>pl\<close> at position 0 and
  \<^verbatim>\<open>pr\<close> at the last position. \<open>intp_swap\<close> is the macro \<^verbatim>\<open>INTP_SWAP\<close>.
\<close>

definition intp_swap :: "nat \<Rightarrow> nat \<Rightarrow> 'a list \<Rightarrow> 'a list" where
  "intp_swap i j t = t[i := t ! j, j := t ! i]"









lemma length_intp_swap [simp]: "length (intp_swap i j t) = length t"
  by (simp add: intp_swap_def)




















section \<open>Predicates on traces and runs\<close>





text \<open>
  The events an iteration may add after the timestamp: the snapshot, training on the
  records \<open>d\<close> released from the queue, and predictions on the features \<open>Xb\<close> of the
  new batch.
\<close>

definition step_event ::
  "('x, 'l, 't) delayed list \<Rightarrow> 'x list \<Rightarrow> ('x, 'l) event \<Rightarrow> bool" where
  "step_event d Xb e =
     (e = Update_metrics
      \<or> (\<exists>i cls. e = Partial_fit i (map X d) (map y_real d) cls)
      \<or> (\<exists>i. e = Predict i Xb))"

text \<open>
  The object after the first lines of \<^verbatim>\<open>_train_and_test\<close>, on which pretraining
  starts: the two lines are printed, \<^verbatim>\<open>actual_max_samples\<close> is computed and
  \<^verbatim>\<open>first_run\<close> is set.
\<close>

definition run_start :: "('m, 'x, 'l, 't) evaluator \<Rightarrow> ('m, 'x, 'l, 't) evaluator" where
  "run_start s =
     s\<lparr>trace := trace s @ [Print ''Prequential Evaluation Delayed'',
                    Print_format ''Evaluating {} target(s).'' (n_targets (stream s))],
       actual_max_samples :=
         (if n_remaining_samples (stream s) = - 1 \<or> n_remaining_samples (stream s) > max_samples s
          then max_samples s else n_remaining_samples (stream s)),
       first_run := True\<rparr>"

section \<open>Example objects\<close>

text \<open>
  A model that counts the samples it was trained on and predicts that count for every
  sample, a stable sort of the queue, a stream of four samples whose labels are released
  one tick after they arrive, and an evaluator over them. The theorems below are
  instantiated on these.
\<close>

definition ex_collab :: "(nat, nat, nat, nat) collab" where
  "ex_collab =
     \<lparr>sort_values = sort_key available_time,
      partial_fit = (\<lambda>m Xs ys cls. Inr (m + length Xs)),
      predict = (\<lambda>m Xs. Labels (map (\<lambda>x. m) Xs)),
      type_name = (\<lambda>m. ''Model''),
      timer_ok = (\<lambda>k. True)\<rparr>"

definition ex_stream :: "(nat, nat, nat) stream" where
  "ex_stream =
     \<lparr>samples = [(10, 1, 2, 0), (11, 2, 3, 1), (12, 3, 4, 0), (13, 4, 5, 1)],
      sample_idx = 0, n_known = True, target_values = [0, 1], n_targets = 1\<rparr>"

definition ex_eval :: "(nat, nat, nat, nat) evaluator" where
  "ex_eval =
     \<lparr>n_wait = 2, max_samples = 4, pretrain_size = 1, batch_size = 1,
      metrics = [''accuracy''], restart_stream = True, task_type = CLASSIFICATION,
      stream = ex_stream, model = [0], global_sample_count = 0, actual_max_samples = 0,
      first_run = True, update_count = 0, current_timestamp = None, delay_queue = None,
      mean_eval_measurements = (\<lambda>_. []), current_eval_measurements = (\<lambda>_. []),
      trace = []\<rparr>"

definition ex_row :: "nat \<Rightarrow> nat \<Rightarrow> (nat, nat, nat) delayed" where
  "ex_row x v = \<lparr>X = x, y_real = 0, y_pred = [7], arrival_time = 1, available_time = v\<rparr>"


text \<open>Arguments of the constructor: the data-points mode with the list at address 1.\<close>

definition ex_args :: init_args where
  "ex_args =
     \<lparr>arg_n_wait = 200, arg_max_samples = 100000, arg_batch_size = 1, arg_pretrain_size = 200,
      arg_metrics = Metrics_list 1, arg_show_plot = False, arg_restart_stream = True,
      arg_data_points_for_classification = True\<rparr>"

text \<open>The example evaluator after pretraining on the first sample, with an empty trace.\<close>

definition ex_running :: "(nat, nat, nat, nat) evaluator" where
  "ex_running =
     ex_eval\<lparr>stream := ex_stream\<lparr>sample_idx := 1\<rparr>, model := [1], global_sample_count := 1,
             actual_max_samples := 4, first_run := False, current_timestamp := Some 1,
             delay_queue := Some []\<rparr>"

text \<open>The example evaluator as pretraining leaves it.\<close>

definition ex_pretrained :: "(nat, nat, nat, nat) evaluator" where
  "ex_pretrained =
     ex_eval\<lparr>stream := ex_stream\<lparr>sample_idx := 1\<rparr>, model := [1], global_sample_count := 1,
             first_run := False, current_timestamp := Some 1, delay_queue := Some [],
             trace := [Print_format ''Pre-training on {} sample(s).'' 1,
                       Partial_fit 0 [10] [0] (Some [0, 1])]\<rparr>"


text \<open>
  A model whose \<^verbatim>\<open>predict\<close> returns a value that is not iterable, and one whose
  \<^verbatim>\<open>predict\<close> returns an empty sequence whatever the batch.
\<close>

definition not_iterable_collab :: "(nat, nat, nat, nat) collab" where
  "not_iterable_collab = ex_collab\<lparr>predict := (\<lambda>m Xs. NotIterable)\<rparr>"

definition short_collab :: "(nat, nat, nat, nat) collab" where
  "short_collab = ex_collab\<lparr>predict := (\<lambda>m Xs. Labels [])\<rparr>"

text \<open>The equations that evaluate a run on the example objects.\<close>

lemmas run_defs = train_and_test_def pretrain_def next_sample_def n_remaining_samples_def
  has_more_samples_def iteration_def iteration_steps_def get_delayed_samples_def
  update_metrics_delayed_def update_classifiers_def predict_samples_def update_delayed_queue_def
  sort_delay_queue_def last_item_def draining_def finalize_def restart_def np_T_def rectangular_def
  unique_def DATA_POINTS_def Let_def running_loop.simps drain_chunks.simps

lemmas ex_defs = ex_collab_def ex_eval_def ex_stream_def

section \<open>Facts about an iteration and a run\<close>

lemma steady_fields:
  assumes "steady s' = steady s"
  shows "batch_size s' = batch_size s" and "actual_max_samples s' = actual_max_samples s"
    and "stream s' = stream s" and "current_timestamp s' = current_timestamp s"
    and "n_wait s' = n_wait s" and "max_samples s' = max_samples s"
    and "pretrain_size s' = pretrain_size s" and "metrics s' = metrics s"
    and "restart_stream s' = restart_stream s" and "task_type s' = task_type s"
  using assms
  by (auto dest: arg_cong[where f = batch_size] arg_cong[where f = actual_max_samples]
        arg_cong[where f = stream] arg_cong[where f = current_timestamp]
        arg_cong[where f = n_wait] arg_cong[where f = max_samples]
        arg_cong[where f = pretrain_size] arg_cong[where f = metrics]
        arg_cong[where f = restart_stream] arg_cong[where f = task_type]
        simp: steady_def)

lemma get_delayed_samples_eq:
  assumes "delay_queue s = Some q" and "current_timestamp s = Some t"
  shows "get_delayed_samples s =
           Inr ((map X (filter (\<lambda>r. available_time r \<le> t) q),
                 map y_real (filter (\<lambda>r. available_time r \<le> t) q),
                 np_T (map y_pred (filter (\<lambda>r. available_time r \<le> t) q))),
                s\<lparr>delay_queue := Some (filter (\<lambda>r. t < available_time r) q)\<rparr>)"
  using assms by (simp add: get_delayed_samples_def Let_def)

lemma update_delayed_queue_eq:
  assumes "delay_queue s = Some q"
  shows "update_delayed_queue c Xs ar av ys (Some ps) s =
           Inr (s\<lparr>delay_queue := Some (sort_values c (q @ zip_rows Xs ys ps ar av))\<rparr>)"
  using assms by (simp add: update_delayed_queue_def sort_delay_queue_def)

lemma predict_samples_Inr:
  assumes "predict_samples c (Some Xs) s = Inr (po, s')"
  shows "\<exists>ps. po = Some (np_T ps) \<and> length ps = length (model s)
           \<and> trace s' = trace s @ map (\<lambda>i. Predict i Xs) [0..<length (model s)]
           \<and> global_sample_count s' = global_sample_count s + int (batch_size s)
           \<and> delay_queue s' = delay_queue s \<and> model s' = model s \<and> steady s' = steady s"
proof (cases "predict_models c Xs [0..<length (model s)] s")
  case (Inl es)
  with assms show ?thesis by (simp add: predict_samples_def)
next
  case (Inr vs)
  obtain ps s1 where vs: "vs = (ps, s1)" by (cases vs) auto
  from predict_models_Inr[of c Xs "[0..<length (model s)]" s ps s1] Inr vs
  have tr: "trace s1 = trace s @ map (\<lambda>i. Predict i Xs) [0..<length (model s)]"
    "length ps = length (model s)" by simp_all
  from predict_models_frame[of c Xs "[0..<length (model s)]" s] Inr vs
  have fr: "steady s1 = steady s" "model s1 = model s"
    "global_sample_count s1 = global_sample_count s" "delay_queue s1 = delay_queue s"
    by simp_all
  have bs: "batch_size s1 = batch_size s" using fr(1) by (rule steady_fields)
  from assms Inr vs have
    "po = Some (np_T ps)"
    "s' = s1\<lparr>global_sample_count := global_sample_count s1 + int (batch_size s1)\<rparr>"
    by (simp_all add: predict_samples_def)
  moreover from this fr(1) have "steady s' = steady s" by (simp add: steady_def)
  ultimately show ?thesis using tr fr bs by (intro exI[of _ ps]) simp
qed

lemma predict_samples_Inl:
  assumes "predict_samples c (Some Xs) s = Inl (e, s')"
  shows "global_sample_count s' = global_sample_count s \<and> delay_queue s' = delay_queue s"
proof (cases "predict_models c Xs [0..<length (model s)] s")
  case (Inl es)
  with assms have "es = (e, s')" by (simp add: predict_samples_def)
  with Inl predict_models_frame[of c Xs "[0..<length (model s)]" s] show ?thesis by simp
next
  case (Inr vs)
  with assms show ?thesis by (cases vs) (simp add: predict_samples_def)
qed

lemma predict_samples_trace:
  "\<exists>evs. trace (st_of_val (predict_samples c (Some Xs) s)) = trace s @ evs
         \<and> (\<forall>e\<in>set evs. \<exists>i. e = Predict i Xs)"
proof (cases "predict_models c Xs [0..<length (model s)] s")
  case (Inl es)
  then have "st_of_val (predict_samples c (Some Xs) s)
               = st_of_val (predict_models c Xs [0..<length (model s)] s)"
    by (cases es) (simp add: predict_samples_def)
  then show ?thesis using predict_models_trace[of c Xs "[0..<length (model s)]" s] by simp
next
  case (Inr vs)
  then have "trace (st_of_val (predict_samples c (Some Xs) s))
               = trace (st_of_val (predict_models c Xs [0..<length (model s)] s))"
    by (cases vs) (simp add: predict_samples_def)
  then show ?thesis using predict_models_trace[of c Xs "[0..<length (model s)]" s] by simp
qed

lemma iteration_steps_run:
  fixes s :: "('m, 'x, 'l, 't::linorder) evaluator"
  assumes q: "delay_queue s = Some q" and t: "current_timestamp s = Some t"
  shows "\<exists>evs. trace (st_of (iteration_steps c b s)) = trace s @ evs
      \<and> (\<forall>e\<in>set evs. step_event (filter (\<lambda>r. available_time r \<le> t) q) (batch_X b) e)
      \<and> (\<forall>s'. iteration_steps c b s = Inr s' \<longrightarrow>
            global_sample_count s' = global_sample_count s + int (batch_size s)
          \<and> (\<forall>j<length (model s). Predict j (batch_X b) \<in> set evs)
          \<and> (\<exists>ps. delay_queue s' =
                 Some (sort_values c (filter (\<lambda>r. t < available_time r) q
                    @ zip_rows (batch_X b) (batch_y b) ps (batch_arrival_time b)
                        (batch_available_time b)))))
      \<and> (\<forall>e s'. iteration_steps c b s = Inl (e, s') \<longrightarrow>
            global_sample_count s' = global_sample_count s
          \<and> delay_queue s' = Some (filter (\<lambda>r. t < available_time r) q))"
proof -
  define d where "d = filter (\<lambda>r. available_time r \<le> t) q"
  define r where "r = filter (\<lambda>r. t < available_time r) q"
  define Xb where "Xb = batch_X b"
  define s2 where "s2 = s\<lparr>delay_queue := Some r\<rparr>"
  define R3 where "R3 = update_metrics_delayed (map y_real d) (np_T (map y_pred d)) s2"
  have g: "get_delayed_samples s
             = Inr ((map X d, map y_real d, np_T (map y_pred d)), s2)"
    using get_delayed_samples_eq[OF q t] by (simp add: d_def r_def s2_def)
  have s2: "trace s2 = trace s" "global_sample_count s2 = global_sample_count s"
    "delay_queue s2 = Some r" "model s2 = model s" "batch_size s2 = batch_size s"
    by (simp_all add: s2_def)
  from update_metrics_delayed_trace[of "map y_real d" "np_T (map y_pred d)" s2]
  obtain evsA where A: "trace (st_of R3) = trace s @ evsA" "\<forall>e\<in>set evsA. e = Update_metrics"
    unfolding R3_def[symmetric] s2(1) by blast
  have PA: "\<forall>e\<in>set evsA. step_event d Xb e"
    using A(2) by (simp add: step_event_def)
  have f3: "global_sample_count (st_of R3) = global_sample_count s"
    "delay_queue (st_of R3) = Some r" "model (st_of R3) = model s"
    "batch_size (st_of R3) = batch_size s"
    using update_metrics_delayed_frame[of "map y_real d" "np_T (map y_pred d)" s2]
          steady_fields(1)[of "st_of R3" s2]
    unfolding R3_def[symmetric] by (simp_all add: s2)
  show ?thesis
    unfolding d_def[symmetric] r_def[symmetric] Xb_def[symmetric]
  proof (cases R3)
    case (Inl es)
    obtain e3 s3 where es: "es = (e3, s3)" by (cases es) auto
    have R: "iteration_steps c b s = Inl (e3, s3)"
      using g Inl es by (simp add: iteration_steps_def R3_def)
    have "s3 = st_of R3" using Inl es by simp
    with A PA f3 R show "\<exists>evs. trace (st_of (iteration_steps c b s)) = trace s @ evs
      \<and> (\<forall>e\<in>set evs. step_event d Xb e)
      \<and> (\<forall>s'. iteration_steps c b s = Inr s' \<longrightarrow>
            global_sample_count s' = global_sample_count s + int (batch_size s)
          \<and> (\<forall>j<length (model s). Predict j Xb \<in> set evs)
          \<and> (\<exists>ps. delay_queue s' =
                 Some (sort_values c (r
                    @ zip_rows Xb (batch_y b) ps (batch_arrival_time b)
                        (batch_available_time b)))))
      \<and> (\<forall>e s'. iteration_steps c b s = Inl (e, s') \<longrightarrow>
            global_sample_count s' = global_sample_count s
          \<and> delay_queue s' = Some r)"
      by (intro exI[of _ evsA]) simp
  next
    case (Inr s3)
    have s3: "s3 = st_of R3" using Inr by simp
    define R4 where "R4 = update_classifiers c (map X d) (map y_real d) s3"
    from update_classifiers_trace[of c "map X d" "map y_real d" s3]
    obtain evsB where B: "trace (st_of R4) = trace s @ evsA @ evsB"
      "\<forall>e\<in>set evsB. \<exists>i cls. e = Partial_fit i (map X d) (map y_real d) cls"
      unfolding R4_def[symmetric] using A(1) s3 by auto
    have PB: "\<forall>e\<in>set (evsA @ evsB). step_event d Xb e"
      using PA B(2) by (auto simp: step_event_def)
    have f3': "global_sample_count s3 = global_sample_count s"
      "delay_queue s3 = Some r" "model s3 = model s" "batch_size s3 = batch_size s"
      using f3 s3 by simp_all
    note U = update_classifiers_frame[of c "map X d" "map y_real d" s3, folded R4_def]
    have "batch_size (st_of R4) = batch_size s3"
      using U by (intro steady_fields(1)) simp
    then have f4: "global_sample_count (st_of R4) = global_sample_count s"
      "delay_queue (st_of R4) = Some r" "length (model (st_of R4)) = length (model s)"
      "batch_size (st_of R4) = batch_size s"
      using U f3' by simp_all
    show "\<exists>evs. trace (st_of (iteration_steps c b s)) = trace s @ evs
      \<and> (\<forall>e\<in>set evs. step_event d Xb e)
      \<and> (\<forall>s'. iteration_steps c b s = Inr s' \<longrightarrow>
            global_sample_count s' = global_sample_count s + int (batch_size s)
          \<and> (\<forall>j<length (model s). Predict j Xb \<in> set evs)
          \<and> (\<exists>ps. delay_queue s' =
                 Some (sort_values c (r
                    @ zip_rows Xb (batch_y b) ps (batch_arrival_time b)
                        (batch_available_time b)))))
      \<and> (\<forall>e s'. iteration_steps c b s = Inl (e, s') \<longrightarrow>
            global_sample_count s' = global_sample_count s
          \<and> delay_queue s' = Some r)"
    proof (cases R4)
      case (Inl es)
      obtain e4 s4 where es: "es = (e4, s4)" by (cases es) auto
      have R: "iteration_steps c b s = Inl (e4, s4)"
        using g \<open>R3 = Inr s3\<close> Inl es by (simp add: iteration_steps_def R3_def R4_def)
      have "s4 = st_of R4" using Inl es by simp
      with B(1) PB f4 R show ?thesis
        by (intro exI[of _ "evsA @ evsB"]) simp
    next
      case (Inr s4)
      have s4: "s4 = st_of R4" using Inr by simp
      define R5 where "R5 = predict_samples c (Some Xb) s4"
      show ?thesis
      proof (cases R5)
        case (Inl es)
        obtain e5 s5 where es: "es = (e5, s5)" by (cases es) auto
        have R: "iteration_steps c b s = Inl (e5, s5)"
          using g \<open>R3 = Inr s3\<close> \<open>R4 = Inr s4\<close> Inl es
          by (simp add: iteration_steps_def R3_def R4_def R5_def Xb_def)
        from predict_samples_trace[of c Xb s4] obtain evsC where
          C: "trace s5 = trace s @ evsA @ evsB @ evsC" "\<forall>e\<in>set evsC. \<exists>i. e = Predict i Xb"
          unfolding R5_def[symmetric] using Inl es B(1) s4 by auto
        have PC: "\<forall>e\<in>set (evsA @ evsB @ evsC). step_event d Xb e"
          using PB C(2) by (auto simp: step_event_def)
        from predict_samples_Inl[of c Xb s4 e5 s5] Inl es
        have "global_sample_count s5 = global_sample_count s" "delay_queue s5 = Some r"
          unfolding R5_def[symmetric] using f4 s4 by simp_all
        with C(1) PC R show ?thesis
          by (intro exI[of _ "evsA @ evsB @ evsC"]) simp
      next
        case (Inr vs)
        obtain po s5 where vs: "vs = (po, s5)" by (cases vs) auto
        from predict_samples_Inr[of c Xb s4 po s5] Inr vs
        obtain ps where ps: "po = Some (np_T ps)"
          "trace s5 = trace s4 @ map (\<lambda>i. Predict i Xb) [0..<length (model s4)]"
          "global_sample_count s5 = global_sample_count s4 + int (batch_size s4)"
          "delay_queue s5 = delay_queue s4"
          unfolding R5_def[symmetric] by auto
        define evsC :: "('x, 'l) event list" where "evsC = map (\<lambda>i. Predict i Xb) [0..<length (model s)]"
        have C: "trace s5 = trace s @ evsA @ evsB @ evsC"
          using ps(2) B(1) f4(3) s4 by (simp add: evsC_def)
        have PC: "\<forall>e\<in>set (evsA @ evsB @ evsC). step_event d Xb e"
          using PB by (auto simp: step_event_def evsC_def)
        have all: "\<forall>j<length (model s). Predict j Xb \<in> set (evsA @ evsB @ evsC)"
          by (auto simp: evsC_def)
        have q5: "delay_queue s5 = Some r" using ps(4) f4(2) s4 by simp
        have g5: "global_sample_count s5 = global_sample_count s + int (batch_size s)"
          using ps(3) f4(1,4) s4 by simp
        define s6 where "s6 = s5\<lparr>delay_queue := Some (sort_values c (r
                    @ zip_rows Xb (batch_y b) (np_T ps) (batch_arrival_time b)
                        (batch_available_time b)))\<rparr>"
        have R: "iteration_steps c b s = Inr s6"
          using g \<open>R3 = Inr s3\<close> \<open>R4 = Inr s4\<close> Inr vs ps(1)
            update_delayed_queue_eq[OF q5, of c Xb "batch_arrival_time b"
              "batch_available_time b" "batch_y b" "np_T ps"]
          by (simp add: iteration_steps_def R3_def R4_def R5_def Xb_def s6_def)
        have "trace s6 = trace s @ evsA @ evsB @ evsC"
          "global_sample_count s6 = global_sample_count s + int (batch_size s)"
          "\<exists>ps. delay_queue s6 = Some (sort_values c (r
                    @ zip_rows Xb (batch_y b) ps (batch_arrival_time b)
                        (batch_available_time b)))"
          using C g5 by (auto simp: s6_def)
        with PC all R show ?thesis
          by (intro exI[of _ "evsA @ evsB @ evsC"]) simp
      qed
    qed
  qed
qed

lemma iteration_empty_batch:
  assumes "next_sample (batch_size s) (stream s) = (b, st)" and "batch_arrival_time b = []"
  shows "iteration c s = Inl (IndexError, s\<lparr>stream := st\<rparr>)"
  using assms by (simp add: iteration_def last_item_def)

lemma iteration_nonempty_batch:
  assumes "next_sample (batch_size s) (stream s) = (b, st)" and "batch_arrival_time b \<noteq> []"
  shows "iteration c s =
           iteration_steps c b
             (s\<lparr>stream := st, current_timestamp := Some (last (batch_arrival_time b))\<rparr>)"
  using assms by (simp add: iteration_def last_item_def)

lemma iteration_steps_no_queue:
  assumes "delay_queue s = None"
  shows "iteration_steps c b s = Inl (AttributeError ''delay_queue'', s)"
  using assms by (simp add: iteration_steps_def get_delayed_samples_def)

lemma iteration_frame:
  "batch_size (st_of (iteration c s)) = batch_size s
   \<and> actual_max_samples (st_of (iteration c s)) = actual_max_samples s
   \<and> length (model (st_of (iteration c s))) = length (model s)"
proof -
  obtain b st where ns: "next_sample (batch_size s) (stream s) = (b, st)"
    by (cases "next_sample (batch_size s) (stream s)") auto
  show ?thesis
  proof (cases "batch_arrival_time b = []")
    case True
    from iteration_empty_batch[OF ns True] show ?thesis by simp
  next
    case False
    let ?s1 = "s\<lparr>stream := st, current_timestamp := Some (last (batch_arrival_time b))\<rparr>"
    from iteration_steps_frame[of c b ?s1] iteration_nonempty_batch[OF ns False, of c]
    have "steady (st_of (iteration c s)) = steady ?s1"
      "length (model (st_of (iteration c s))) = length (model s)" by simp_all
    with steady_fields(1,2)[of "st_of (iteration c s)" ?s1] show ?thesis by simp
  qed
qed

lemma iteration_count:
  "(iteration c s = Inr s' \<longrightarrow>
      global_sample_count s' = global_sample_count s + int (batch_size s))
   \<and> (iteration c s = Inl (e, s') \<longrightarrow> global_sample_count s' = global_sample_count s)"
proof -
  obtain b st where ns: "next_sample (batch_size s) (stream s) = (b, st)"
    by (cases "next_sample (batch_size s) (stream s)") auto
  show ?thesis
  proof (cases "batch_arrival_time b = []")
    case True
    from iteration_empty_batch[OF ns True] show ?thesis by auto
  next
    case False
    let ?s1 = "s\<lparr>stream := st, current_timestamp := Some (last (batch_arrival_time b))\<rparr>"
    note it = iteration_nonempty_batch[OF ns False, of c]
    show ?thesis
    proof (cases "delay_queue s")
      case None
      then have "iteration_steps c b ?s1 = Inl (AttributeError ''delay_queue'', ?s1)"
        by (intro iteration_steps_no_queue) simp
      with it show ?thesis by auto
    next
      case (Some q)
      from iteration_steps_run[of ?s1 q "last (batch_arrival_time b)" c b] Some
      have "(\<forall>s'. iteration_steps c b ?s1 = Inr s' \<longrightarrow>
               global_sample_count s' = global_sample_count s + int (batch_size s))
          \<and> (\<forall>e s'. iteration_steps c b ?s1 = Inl (e, s') \<longrightarrow>
               global_sample_count s' = global_sample_count s)"
        by auto
      with it show ?thesis by simp
    qed
  qed
qed

lemma running_loop_count:
  "global_sample_count (running_loop c k s)
      \<le> max (global_sample_count s) (actual_max_samples s + int (batch_size s) - 1)
   \<and> batch_size (running_loop c k s) = batch_size s
   \<and> actual_max_samples (running_loop c k s) = actual_max_samples s"
proof (induction c k s rule: running_loop.induct)
  case (1 c k s)
  show ?case
  proof (cases "global_sample_count s < actual_max_samples s \<and> timer_ok c k
         \<and> has_more_samples (stream s)")
    case False
    then show ?thesis by (subst (1 2 3) running_loop.simps) auto
  next
    case True
    note fr = iteration_frame[of c s]
    show ?thesis
    proof (cases "iteration c s")
      case (Inl es)
      obtain e s' where es: "es = (e, s')" by (cases es) auto
      from iteration_count[of c s s' e] Inl es
      have "global_sample_count s' = global_sample_count s" by simp
      moreover have "running_loop c k s = s'\<lparr>trace := trace s' @ [Print_exc e]\<rparr>"
        using True Inl es by (subst running_loop.simps) simp
      ultimately show ?thesis using fr Inl es by simp
    next
      case (Inr s')
      from iteration_count[of c s s'] Inr
      have g: "global_sample_count s' = global_sample_count s + int (batch_size s)" by simp
      have l: "running_loop c k s = running_loop c (Suc k) s'"
        using True Inr by (subst running_loop.simps) simp
      from "1.IH"[OF True Inr] fr Inr g True l show ?thesis by auto
    qed
  qed
qed

lemma pretrain_count:
  "(global_sample_count (st_of (pretrain c s)) = global_sample_count s
      \<or> global_sample_count (st_of (pretrain c s)) = global_sample_count s + int (pretrain_size s))
   \<and> batch_size (st_of (pretrain c s)) = batch_size s
   \<and> actual_max_samples (st_of (pretrain c s)) = actual_max_samples s"
proof (cases "pretrain_size s > 0")
  case False
  then show ?thesis by (simp add: pretrain_def)
next
  case True
  obtain b st where ns: "next_sample (pretrain_size s) (stream s) = (b, st)"
    by (cases "next_sample (pretrain_size s) (stream s)") auto
  define s1 where "s1 = s\<lparr>trace := trace s @ [Print_format ''Pre-training on {} sample(s).''
                     (pretrain_size s)], stream := st\<rparr>"
  define classes where "classes =
               (if task_type s = CLASSIFICATION then Some (target_values (stream s))
                else if task_type s = MULTI_TARGET_CLASSIFICATION
                     then Some (unique (target_values (stream s)))
                     else None)"
  define R where "R = fit_models c (batch_X b) (batch_y b) classes [0..<length (model s)] s1"
  note F = fit_models_frame[of c "batch_X b" "batch_y b" classes "[0..<length (model s)]" s1,
      folded R_def]
  have fr: "global_sample_count (st_of R) = global_sample_count s"
    "batch_size (st_of R) = batch_size s" "actual_max_samples (st_of R) = actual_max_samples s"
    "pretrain_size (st_of R) = pretrain_size s"
    using F steady_fields(1,2,7)[of "st_of R" s1] by (simp_all add: s1_def)
  show ?thesis
  proof (cases R)
    case (Inl es)
    then have "pretrain c s = Inl es"
      using True ns by (simp add: pretrain_def Let_def R_def s1_def classes_def)
    with Inl fr show ?thesis by (cases es) simp
  next
    case (Inr s2)
    define s3 where "s3 = s2\<lparr>global_sample_count := global_sample_count s2 + int (pretrain_size s2),
                              first_run := False\<rparr>"
    have s3: "global_sample_count s3 = global_sample_count s + int (pretrain_size s)"
      "batch_size s3 = batch_size s" "actual_max_samples s3 = actual_max_samples s"
      using fr Inr by (simp_all add: s3_def)
    have "pretrain c s = (case last_item (batch_arrival_time b) of
                      Inl e \<Rightarrow> Inl (e, s3)
                    | Inr t \<Rightarrow>
                        sort_delay_queue c (s3\<lparr>current_timestamp := Some t, delay_queue := Some []\<rparr>))"
      unfolding s3_def pretrain_def R_def s1_def classes_def
      using True ns Inr[unfolded R_def s1_def classes_def] by (simp add: Let_def)
    then show ?thesis using s3
      by (simp add: last_item_def sort_delay_queue_def)
  qed
qed

lemma draining_frame:
  assumes "draining c s = Some r"
  shows "global_sample_count (st_of r) = global_sample_count s
     \<and> batch_size (st_of r) = batch_size s
     \<and> actual_max_samples (st_of r) = actual_max_samples s"
  using assms
  by (auto simp: draining_def sort_delay_queue_def split: option.splits if_splits)

lemma finalize_frame:
  "global_sample_count (finalize s) = global_sample_count s
     \<and> batch_size (finalize s) = batch_size s
     \<and> actual_max_samples (finalize s) = actual_max_samples s"
  by (simp add: finalize_def Let_def)

lemma train_and_test_count:
  assumes "final_state (train_and_test c s) = Some sf"
  shows "global_sample_count sf
           \<le> max (global_sample_count s + int (pretrain_size s))
                 (actual_max_samples sf + int (batch_size s) - 1)"
proof -
  define n where "n = n_remaining_samples (stream s)"
  define s1 where "s1 = s\<lparr>trace := trace s @ [Print ''Prequential Evaluation Delayed'',
                    Print_format ''Evaluating {} target(s).'' (n_targets (stream s))],
                actual_max_samples := (if n = - 1 \<or> n > max_samples s then max_samples s else n),
                first_run := True\<rparr>"
  have s1: "global_sample_count s1 = global_sample_count s" "batch_size s1 = batch_size s"
    "pretrain_size s1 = pretrain_size s"
    by (simp_all add: s1_def)
  note P = pretrain_count[of c s1]
  have tt: "train_and_test c s =
     (case pretrain c s1 of
           Inl (e, s') \<Rightarrow> Raises e s'
         | Inr s2 \<Rightarrow>
             (case draining c (running_loop c 0
                     (s2\<lparr>update_count := 0, trace := trace s2 @ [Print ''Evaluating...'']\<rparr>)) of
                   None \<Rightarrow> Hangs
                 | Some (Inl (e, s')) \<Rightarrow> Raises e s'
                 | Some (Inr s5) \<Rightarrow> Returns (finalize s5)))"
    unfolding train_and_test_def s1_def n_def Let_def by simp
  show ?thesis
  proof (cases "pretrain c s1")
    case (Inl es)
    obtain e s' where es: "es = (e, s')" by (cases es) auto
    from assms tt Inl es have "sf = s'" by (simp add: final_state_def)
    with P Inl es s1 show ?thesis by auto
  next
    case (Inr s2)
    define s3 where "s3 = s2\<lparr>update_count := 0, trace := trace s2 @ [Print ''Evaluating...'']\<rparr>"
    define s4 where "s4 = running_loop c 0 s3"
    have g3: "global_sample_count s3 \<le> global_sample_count s + int (pretrain_size s)"
      "batch_size s3 = batch_size s" "actual_max_samples s3 = actual_max_samples s1"
      using P Inr s1 by (auto simp: s3_def)
    from running_loop_count[of c 0 s3]
    have g4: "global_sample_count s4
                \<le> max (global_sample_count s3) (actual_max_samples s3 + int (batch_size s3) - 1)"
      "batch_size s4 = batch_size s3" "actual_max_samples s4 = actual_max_samples s3"
      by (simp_all add: s4_def)
    from assms tt Inr obtain r where r: "draining c s4 = Some r"
      and sf: "sf = st_of r \<or> (\<exists>s5. r = Inr s5 \<and> sf = finalize s5)"
      by (auto simp: final_state_def s3_def s4_def split: option.splits sum.splits)
    have "global_sample_count sf = global_sample_count s4
          \<and> actual_max_samples sf = actual_max_samples s4"
      using sf
    proof
      assume "sf = st_of r"
      with draining_frame[OF r] show ?thesis by simp
    next
      assume "\<exists>s5. r = Inr s5 \<and> sf = finalize s5"
      then obtain s5 where "r = Inr s5" "sf = finalize s5" by blast
      with draining_frame[OF r] finalize_frame[of s5] show ?thesis by simp
    qed
    with g3 g4 show ?thesis by simp
  qed
qed





lemma sort_contract_set: "sort_contract c \<Longrightarrow> set (sort_values c q) = set q"
  unfolding sort_contract_def by (metis set_mset_mset)






lemma pretrain_Inr:
  assumes "0 < pretrain_size s" and "pretrain c s = Inr s'"
    and ns: "next_sample (pretrain_size s) (stream s) = (b, st)"
  shows "batch_arrival_time b \<noteq> []
       \<and> current_timestamp s' = Some (last (batch_arrival_time b))
       \<and> delay_queue s' = Some (sort_values c [])"
proof -
  define s1 where "s1 = s\<lparr>trace := trace s @ [Print_format ''Pre-training on {} sample(s).''
                     (pretrain_size s)], stream := st\<rparr>"
  define classes where "classes =
               (if task_type s = CLASSIFICATION then Some (target_values (stream s))
                else if task_type s = MULTI_TARGET_CLASSIFICATION
                     then Some (unique (target_values (stream s)))
                     else None)"
  define R where "R = fit_models c (batch_X b) (batch_y b) classes [0..<length (model s)] s1"
  show ?thesis
  proof (cases R)
    case (Inl es)
    then have "pretrain c s = Inl es"
      using assms(1) ns by (simp add: pretrain_def Let_def R_def s1_def classes_def)
    with assms(2) show ?thesis by simp
  next
    case (Inr s2)
    define s3 where "s3 = s2\<lparr>global_sample_count := global_sample_count s2 + int (pretrain_size s2),
                              first_run := False\<rparr>"
    have "pretrain c s = (case last_item (batch_arrival_time b) of
                      Inl e \<Rightarrow> Inl (e, s3)
                    | Inr t \<Rightarrow>
                        sort_delay_queue c (s3\<lparr>current_timestamp := Some t, delay_queue := Some []\<rparr>))"
      unfolding s3_def pretrain_def R_def s1_def classes_def
      using assms(1) ns Inr[unfolded R_def s1_def classes_def] by (simp add: Let_def)
    with assms(2) show ?thesis
      by (auto simp: last_item_def sort_delay_queue_def split: if_splits)
  qed
qed

lemma sort_contract_Nil: "sort_contract c \<Longrightarrow> sort_values c [] = []"
  using sort_contract_set[of c "[]"] by simp

lemma iteration_timestamp:
  assumes ns: "next_sample (batch_size s) (stream s) = (b, st)"
    and ne: "batch_arrival_time b \<noteq> []"
  shows "current_timestamp (st_of (iteration c s)) = Some (last (batch_arrival_time b))"
proof -
  let ?s1 = "s\<lparr>stream := st, current_timestamp := Some (last (batch_arrival_time b))\<rparr>"
  from iteration_steps_frame[of c b ?s1] iteration_nonempty_batch[OF ns ne, of c]
  have "steady (st_of (iteration c s)) = steady ?s1" by simp
  from steady_fields(4)[OF this] show ?thesis by simp
qed

lemma iteration_at_timestamp:
  fixes s :: "('m, 'x, 'l, 't::linorder) evaluator"
  assumes ns: "next_sample (batch_size s) (stream s) = (b, st)"
    and ne: "batch_arrival_time b \<noteq> []"
    and q: "delay_queue s = Some q"
  shows "\<exists>evs. trace (st_of (iteration c s)) = trace s @ evs
      \<and> (\<forall>e\<in>set evs.
            step_event (filter (\<lambda>r. available_time r \<le> last (batch_arrival_time b)) q)
              (batch_X b) e)
      \<and> (\<forall>s'. iteration c s = Inr s' \<longrightarrow>
           (\<exists>ps. delay_queue s' =
                 Some (sort_values c
                    (filter (\<lambda>r. last (batch_arrival_time b) < available_time r) q
                     @ zip_rows (batch_X b) (batch_y b) ps (batch_arrival_time b)
                        (batch_available_time b)))))
      \<and> (\<forall>e s'. iteration c s = Inl (e, s') \<longrightarrow>
            delay_queue s' = Some (filter (\<lambda>r. last (batch_arrival_time b) < available_time r) q))"
proof -
  let ?t = "last (batch_arrival_time b)"
  let ?s1 = "s\<lparr>stream := st, current_timestamp := Some ?t\<rparr>"
  from iteration_steps_run[of ?s1 q ?t c b] q iteration_nonempty_batch[OF ns ne, of c]
  obtain evs where
    "trace (st_of (iteration c s)) = trace s @ evs"
    "\<forall>e\<in>set evs. step_event (filter (\<lambda>r. available_time r \<le> ?t) q) (batch_X b) e"
    "\<forall>s'. iteration c s = Inr s' \<longrightarrow>
           (\<exists>ps. delay_queue s' =
                 Some (sort_values c
                    (filter (\<lambda>r. ?t < available_time r) q
                     @ zip_rows (batch_X b) (batch_y b) ps (batch_arrival_time b)
                        (batch_available_time b))))"
    "\<forall>e s'. iteration c s = Inl (e, s') \<longrightarrow>
            delay_queue s' = Some (filter (\<lambda>r. ?t < available_time r) q)"
    by auto
  then show ?thesis by blast
qed

lemma running_loop_catches:
  assumes "global_sample_count s < actual_max_samples s" and "timer_ok c k"
    and "has_more_samples (stream s)" and "iteration c s = Inl (e, s')"
  shows "running_loop c k s = s'\<lparr>trace := trace s' @ [Print_exc e]\<rparr>"
  using assms by (subst running_loop.simps) simp

lemma iteration_queue:
  fixes s :: "('m, 'x, 'l, 't::linorder) evaluator"
  assumes "delay_queue s = Some q"
  shows "\<exists>q'. delay_queue (st_of (iteration c s)) = Some q'"
proof -
  obtain b st where ns: "next_sample (batch_size s) (stream s) = (b, st)"
    by (cases "next_sample (batch_size s) (stream s)") auto
  show ?thesis
  proof (cases "batch_arrival_time b = []")
    case True
    from iteration_empty_batch[OF ns True, of c] assms show ?thesis by simp
  next
    case False
    from iteration_at_timestamp[OF ns False assms, of c] show ?thesis
      by (cases "iteration c s") auto
  qed
qed

lemma iteration_settings:
  "metrics (st_of (iteration c s)) = metrics s
   \<and> restart_stream (st_of (iteration c s)) = restart_stream s"
proof -
  obtain b st where ns: "next_sample (batch_size s) (stream s) = (b, st)"
    by (cases "next_sample (batch_size s) (stream s)") auto
  show ?thesis
  proof (cases "batch_arrival_time b = []")
    case True
    from iteration_empty_batch[OF ns True] show ?thesis by simp
  next
    case False
    let ?s1 = "s\<lparr>stream := st, current_timestamp := Some (last (batch_arrival_time b))\<rparr>"
    from iteration_steps_frame[of c b ?s1] iteration_nonempty_batch[OF ns False, of c]
    have "steady (st_of (iteration c s)) = steady ?s1" by simp
    with steady_fields(8,9)[of "st_of (iteration c s)" ?s1] show ?thesis by simp
  qed
qed

lemma running_loop_queue:
  fixes s :: "('m, 'x, 'l, 't::linorder) evaluator"
  assumes "delay_queue s = Some q"
  shows "(\<exists>q'. delay_queue (running_loop c k s) = Some q')
       \<and> metrics (running_loop c k s) = metrics s
       \<and> restart_stream (running_loop c k s) = restart_stream s"
  using assms
proof (induction c k s arbitrary: q rule: running_loop.induct)
  case (1 c k s)
  show ?case
  proof (cases "global_sample_count s < actual_max_samples s \<and> timer_ok c k
         \<and> has_more_samples (stream s)")
    case False
    then have "running_loop c k s = s" by (subst running_loop.simps) auto
    with "1.prems" show ?thesis by simp
  next
    case True
    from iteration_queue[OF "1.prems", of c] obtain q' where
      q': "delay_queue (st_of (iteration c s)) = Some q'" by blast
    note st = iteration_settings[of c s]
    show ?thesis
    proof (cases "iteration c s")
      case (Inl es)
      obtain e s' where es: "es = (e, s')" by (cases es) auto
      from running_loop_catches[of s c k e s'] True Inl es
      have "running_loop c k s = s'\<lparr>trace := trace s' @ [Print_exc e]\<rparr>" by simp
      with q' st Inl es show ?thesis by simp
    next
      case (Inr s')
      have l: "running_loop c k s = running_loop c (Suc k) s'"
        using True Inr by (subst running_loop.simps) simp
      from "1.IH"[OF True Inr, of q'] q' st Inr l show ?thesis by simp
    qed
  qed
qed

lemma train_and_test_unfold:
  "train_and_test c s =
     (case pretrain c (run_start s) of
           Inl (e, s') \<Rightarrow> Raises e s'
         | Inr s2 \<Rightarrow>
             (case draining c (running_loop c 0
                     (s2\<lparr>update_count := 0, trace := trace s2 @ [Print ''Evaluating...'']\<rparr>)) of
                   None \<Rightarrow> Hangs
                 | Some (Inl (e, s')) \<Rightarrow> Raises e s'
                 | Some (Inr s5) \<Rightarrow> Returns (finalize s5)))"
  unfolding train_and_test_def run_start_def Let_def by simp

lemma pretrain_settings:
  "metrics (st_of (pretrain c s)) = metrics s
   \<and> restart_stream (st_of (pretrain c s)) = restart_stream s"
proof (cases "pretrain_size s > 0")
  case False
  then show ?thesis by (simp add: pretrain_def)
next
  case True
  obtain b st where ns: "next_sample (pretrain_size s) (stream s) = (b, st)"
    by (cases "next_sample (pretrain_size s) (stream s)") auto
  define s1 where "s1 = s\<lparr>trace := trace s @ [Print_format ''Pre-training on {} sample(s).''
                     (pretrain_size s)], stream := st\<rparr>"
  define classes where "classes =
               (if task_type s = CLASSIFICATION then Some (target_values (stream s))
                else if task_type s = MULTI_TARGET_CLASSIFICATION
                     then Some (unique (target_values (stream s)))
                     else None)"
  define R where "R = fit_models c (batch_X b) (batch_y b) classes [0..<length (model s)] s1"
  note F = fit_models_frame[of c "batch_X b" "batch_y b" classes "[0..<length (model s)]" s1,
      folded R_def]
  have fr: "metrics (st_of R) = metrics s" "restart_stream (st_of R) = restart_stream s"
    using F steady_fields(8,9)[of "st_of R" s1] by (simp_all add: s1_def)
  show ?thesis
  proof (cases R)
    case (Inl es)
    then have "pretrain c s = Inl es"
      using True ns by (simp add: pretrain_def Let_def R_def s1_def classes_def)
    with Inl fr show ?thesis by (cases es) simp
  next
    case (Inr s2)
    define s3 where "s3 = s2\<lparr>global_sample_count := global_sample_count s2 + int (pretrain_size s2),
                              first_run := False\<rparr>"
    have s3: "metrics s3 = metrics s" "restart_stream s3 = restart_stream s"
      using fr Inr by (simp_all add: s3_def)
    have "pretrain c s = (case last_item (batch_arrival_time b) of
                      Inl e \<Rightarrow> Inl (e, s3)
                    | Inr t \<Rightarrow>
                        sort_delay_queue c (s3\<lparr>current_timestamp := Some t, delay_queue := Some []\<rparr>))"
      unfolding s3_def pretrain_def R_def s1_def classes_def
      using True ns Inr[unfolded R_def s1_def classes_def] by (simp add: Let_def)
    then show ?thesis using s3
      by (simp add: last_item_def sort_delay_queue_def)
  qed
qed

lemma drain_chunks_drops:
  "0 < bs \<Longrightarrow> \<exists>n. drain_chunks bs q = Some (drop n q)"
proof (induction bs q rule: drain_chunks.induct)
  case (1 bs q)
  show ?case
  proof (cases "length q > 0 \<and> int (length q) - int bs > 0")
    case True
    with 1 obtain n where "drain_chunks bs (drop bs q) = Some (drop n (drop bs q))"
      by auto
    with True 1(2) have "drain_chunks bs q = Some (drop (n + bs) q)"
      by (subst drain_chunks.simps) simp
    then show ?thesis by blast
  next
    case False
    then have "drain_chunks bs q = Some (drop 0 q)"
      by (subst drain_chunks.simps) auto
    then show ?thesis by blast
  qed
qed

lemma draining_returns:
  assumes "delay_queue s = Some q" and "0 < batch_size s"
  shows "\<exists>q'. draining c s = Some (Inr (s\<lparr>delay_queue := Some q'\<rparr>))"
proof (cases "q = []")
  case True
  with assms(1) have "draining c s = Some (Inr s)" by (simp add: draining_def)
  moreover have "s = s\<lparr>delay_queue := Some q\<rparr>" using assms(1) by simp
  ultimately show ?thesis by metis
next
  case False
  from drain_chunks_drops[OF assms(2), of "sort_values c q"]
  obtain n where "drain_chunks (batch_size s) (sort_values c q) = Some (drop n (sort_values c q))"
    by blast
  with False assms(1)
  have "draining c s = Some (Inr (s\<lparr>delay_queue := Some (drop n (sort_values c q))\<rparr>))"
    by (simp add: draining_def sort_delay_queue_def)
  then show ?thesis by blast
qed

lemma finalize_trace:
  "trace (finalize s) =
     trace s @ [Flush_file_buffer,
                if set (metrics s) - {DATA_POINTS} \<noteq> {} then Evaluation_summary else Print ''Done'']
   \<and> (restart_stream s \<longrightarrow> sample_idx (stream (finalize s)) = 0)
   \<and> model (finalize s) = model s"
  by (simp add: finalize_def Let_def restart_def)

lemma train_and_test_returns:
  fixes s :: "('m, 'x, 'l::linorder, 't::linorder) evaluator"
  assumes pre: "pretrain c (run_start s) = Inr s2" and q: "delay_queue s2 = Some q"
    and bs: "0 < batch_size s"
  shows "\<exists>sf tr. train_and_test c s = Returns sf
           \<and> trace sf = tr @ [Flush_file_buffer,
                if set (metrics s) - {DATA_POINTS} \<noteq> {} then Evaluation_summary else Print ''Done'']
           \<and> (restart_stream s \<longrightarrow> sample_idx (stream sf) = 0)"
proof -
  define s3 where "s3 = s2\<lparr>update_count := 0, trace := trace s2 @ [Print ''Evaluating...'']\<rparr>"
  define s4 where "s4 = running_loop c 0 s3"
  have p2: "metrics s2 = metrics s" "restart_stream s2 = restart_stream s"
    "batch_size s2 = batch_size s"
    using pretrain_settings[of c "run_start s"] pretrain_count[of c "run_start s"] pre
    by (simp_all add: run_start_def)
  have q3: "delay_queue s3 = Some q" using q by (simp add: s3_def)
  from running_loop_queue[OF q3, of c 0] running_loop_count[of c 0 s3] p2
  obtain q4 where s4: "delay_queue s4 = Some q4" "metrics s4 = metrics s"
    "restart_stream s4 = restart_stream s" "batch_size s4 = batch_size s"
    by (auto simp: s4_def s3_def)
  from draining_returns[OF s4(1), of c] bs s4(4)
  obtain q5 where d: "draining c s4 = Some (Inr (s4\<lparr>delay_queue := Some q5\<rparr>))" by auto
  have "train_and_test c s = Returns (finalize (s4\<lparr>delay_queue := Some q5\<rparr>))"
    using pre d by (simp add: train_and_test_unfold s3_def s4_def)
  moreover note finalize_trace[of "s4\<lparr>delay_queue := Some q5\<rparr>"]
  ultimately show ?thesis using s4 by simp
qed

lemma predict_models_raises:
  assumes "\<forall>j\<in>set pre. \<exists>ls. predict c (model s ! j) Xs = Labels ls"
    and "predict c (model s ! i) Xs = NotIterable
         \<or> (\<exists>m. predict c (model s ! i) Xs = PredictRaises (TypeError m))"
  shows "\<exists>s'. predict_models c Xs (pre @ i # post) s
                = Inl (unexpected_prediction (type_name c (model s ! i)), s')"
  using assms
proof (induction pre arbitrary: s)
  case Nil
  then show ?case by auto
next
  case (Cons j pre)
  let ?s1 = "s\<lparr>trace := trace s @ [Predict j Xs]\<rparr>"
  from Cons.prems(1) obtain ls where ls: "predict c (model s ! j) Xs = Labels ls" by auto
  from Cons.IH[of ?s1] Cons.prems obtain s' where
    "predict_models c Xs (pre @ i # post) ?s1
       = Inl (unexpected_prediction (type_name c (model s ! i)), s')"
    by auto
  with ls show ?case by simp
qed

text \<open>
  A run starts with \<^verbatim>\<open>actual_max_samples\<close> at most \<^verbatim>\<open>max_samples\<close>, and the
  loop starts an iteration only below \<^verbatim>\<open>actual_max_samples\<close>: in an iteration the
  count has reached neither of the two.
\<close>

lemma run_start_budget: "actual_max_samples (run_start s) \<le> max_samples (run_start s)"
  by (simp add: run_start_def)

lemma budget_tests_in_loop:
  assumes "global_sample_count s < actual_max_samples s"
    and "actual_max_samples s \<le> max_samples s"
  shows "\<not> max_samples s \<le> global_sample_count s
       \<and> \<not> actual_max_samples s \<le> global_sample_count s"
  using assms by simp

lemma np_T_Nil [simp]: "np_T [] = []"
  by (simp add: np_T_def rectangular_def)

lemma sort_contract_ex_collab: "sort_contract ex_collab"
  by (simp add: sort_contract_def ex_collab_def)







text \<open>
  The TypeError of the prediction step comes from a call of \<^verbatim>\<open>predict\<close>, or of
  \<^verbatim>\<open>extend\<close> on its result, and from nowhere else.
\<close>

lemma predict_models_unexpected:
  assumes "predict_models c Xs js s = Inl (TypeError msg, s')"
  shows "\<exists>pre i post. js = pre @ i # post
           \<and> (\<forall>j\<in>set pre. \<exists>ls. predict c (model s ! j) Xs = Labels ls)
           \<and> (predict c (model s ! i) Xs = NotIterable
                \<or> (\<exists>m. predict c (model s ! i) Xs = PredictRaises (TypeError m)))
           \<and> TypeError msg = unexpected_prediction (type_name c (model s ! i))"
  using assms
proof (induction js arbitrary: s)
  case Nil
  then show ?case by simp
next
  case (Cons j js)
  let ?s1 = "s\<lparr>trace := trace s @ [Predict j Xs]\<rparr>"
  show ?case
  proof (cases "predict c (model s ! j) Xs")
    case (Labels ls)
    have "predict_models c Xs js ?s1 = Inl (TypeError msg, s')"
    proof (cases "predict_models c Xs js ?s1")
      case (Inl es)
      with Cons.prems Labels show ?thesis by simp
    next
      case (Inr vs)
      with Cons.prems Labels show ?thesis by (cases vs) simp
    qed
    from Cons.IH[OF this] obtain pre i post where
      "js = pre @ i # post"
      "\<forall>j\<in>set pre. \<exists>ls. predict c (model s ! j) Xs = Labels ls"
      "predict c (model s ! i) Xs = NotIterable
         \<or> (\<exists>m. predict c (model s ! i) Xs = PredictRaises (TypeError m))"
      "TypeError msg = unexpected_prediction (type_name c (model s ! i))"
      by auto
    with Labels show ?thesis
      by (intro exI[of _ "j # pre"] exI[of _ i] exI[of _ post]) simp
  next
    case NotIterable
    with Cons.prems have "TypeError msg = unexpected_prediction (type_name c (model s ! j))"
      by simp
    with NotIterable show ?thesis
      by (intro exI[of _ "[]"] exI[of _ j] exI[of _ js]) simp
  next
    case (PredictRaises e)
    show ?thesis
    proof (cases e)
      case (TypeError m)
      with PredictRaises Cons.prems
      have "TypeError msg = unexpected_prediction (type_name c (model s ! j))"
        by simp
      with PredictRaises TypeError show ?thesis
        by (intro exI[of _ "[]"] exI[of _ j] exI[of _ js]) simp
    qed (use PredictRaises Cons.prems in simp_all)
  qed
qed

lemma upt_split:
  assumes "[0..<n] = pre @ i # post"
  shows "i < n \<and> pre = [0..<i]"
proof -
  have len: "length pre < n"
    using arg_cong[OF assms, of length] by simp
  have "[0..<n] ! length pre = i"
    using assms by simp
  with len have i: "i = length pre" by simp
  have "take (length pre) [0..<n] = pre"
    using assms by simp
  with len i show ?thesis by (simp add: take_upt)
qed

lemma predict_samples_unexpected:
  assumes "predict_samples c (Some Xs) s = Inl (TypeError msg, s')"
  shows "\<exists>i<length (model s).
           (\<forall>j<i. \<exists>ls. predict c (model s ! j) Xs = Labels ls)
           \<and> (predict c (model s ! i) Xs = NotIterable
                \<or> (\<exists>m. predict c (model s ! i) Xs = PredictRaises (TypeError m)))
           \<and> TypeError msg = unexpected_prediction (type_name c (model s ! i))"
proof -
  have "predict_models c Xs [0..<length (model s)] s = Inl (TypeError msg, s')"
  proof (cases "predict_models c Xs [0..<length (model s)] s")
    case (Inl es)
    with assms show ?thesis by (simp add: predict_samples_def)
  next
    case (Inr vs)
    with assms show ?thesis by (cases vs) (simp add: predict_samples_def)
  qed
  from predict_models_unexpected[OF this] obtain pre i post where
    sp: "[0..<length (model s)] = pre @ i # post"
    and pre: "\<forall>j\<in>set pre. \<exists>ls. predict c (model s ! j) Xs = Labels ls"
    and i: "predict c (model s ! i) Xs = NotIterable
         \<or> (\<exists>m. predict c (model s ! i) Xs = PredictRaises (TypeError m))"
      "TypeError msg = unexpected_prediction (type_name c (model s ! i))"
    by blast
  from upt_split[OF sp] have "i < length (model s)" "pre = [0..<i]" by simp_all
  with pre i show ?thesis by (intro exI[of _ i]) simp
qed

lemma update_metrics_delayed_test:
  assumes "length yp > 0" and "n_wait s \<noteq> 0"
    and "add_results yr yp [0..<length (model s)] s = Inr s1"
  shows "\<exists>s'. update_metrics_delayed yr yp s = Inr s'
           \<and> (if global_sample_count s mod n_wait s = 0
                   \<or> max_samples s \<le> global_sample_count s
                   \<or> of_int (update_count s + 1)
                        < (of_int (global_sample_count s) / of_int (n_wait s) :: rat)
               then trace s' = trace s @ [Update_metrics]
                      \<and> update_count s' = update_count s + 1
               else trace s' = trace s \<and> update_count s' = update_count s)"
proof -
  have f: "steady s1 = steady s" "trace s1 = trace s" "update_count s1 = update_count s"
    "global_sample_count s1 = global_sample_count s"
    using add_results_frame[of yr yp "[0..<length (model s)]" s] assms(3) by simp_all
  have c: "n_wait s1 = n_wait s" "max_samples s1 = max_samples s"
    using f(1) by (auto dest: arg_cong[where f = n_wait] arg_cong[where f = max_samples]
                        simp: steady_def)
  show ?thesis
    using assms f(2-4) c by (simp add: update_metrics_delayed_def)
qed

text \<open>
  The steps of an iteration up to the call of \<^verbatim>\<open>_update_metrics_delayed\<close> assign
  the stream, the timestamp and the queue: the call sees the sample count of the loop
  test.
\<close>

lemma iteration_metrics_state:
  fixes s :: "('m, 'x, 'l, 't::linorder) evaluator"
  assumes "delay_queue s = Some q"
    and "next_sample (batch_size s) (stream s) = (b, st)"
    and "batch_arrival_time b \<noteq> []"
  shows "iteration c s =
     (case update_metrics_delayed
             (map y_real (filter (\<lambda>r. available_time r \<le> last (batch_arrival_time b)) q))
             (np_T (map y_pred
                (filter (\<lambda>r. available_time r \<le> last (batch_arrival_time b)) q)))
             (s\<lparr>stream := st, current_timestamp := Some (last (batch_arrival_time b)),
                delay_queue :=
                  Some (filter (\<lambda>r. last (batch_arrival_time b) < available_time r) q)\<rparr>) of
        Inl es \<Rightarrow> Inl es
      | Inr s3 \<Rightarrow>
          (case update_classifiers c
                  (map X (filter (\<lambda>r. available_time r \<le> last (batch_arrival_time b)) q))
                  (map y_real
                     (filter (\<lambda>r. available_time r \<le> last (batch_arrival_time b)) q)) s3 of
             Inl es \<Rightarrow> Inl es
           | Inr s4 \<Rightarrow>
               (case predict_samples c (Some (batch_X b)) s4 of
                  Inl es \<Rightarrow> Inl es
                | Inr (preds, s5) \<Rightarrow>
                    update_delayed_queue c (batch_X b) (batch_arrival_time b)
                      (batch_available_time b) (batch_y b) preds s5)))"
proof -
  let ?t = "last (batch_arrival_time b)"
  let ?s1 = "s\<lparr>stream := st, current_timestamp := Some ?t\<rparr>"
  have "get_delayed_samples ?s1 =
          Inr ((map X (filter (\<lambda>r. available_time r \<le> ?t) q),
                map y_real (filter (\<lambda>r. available_time r \<le> ?t) q),
                np_T (map y_pred (filter (\<lambda>r. available_time r \<le> ?t) q))),
               ?s1\<lparr>delay_queue := Some (filter (\<lambda>r. ?t < available_time r) q)\<rparr>)"
    using assms(1) by (intro get_delayed_samples_eq) simp_all
  then show ?thesis
    unfolding iteration_nonempty_batch[OF assms(2,3)] iteration_steps_def by simp
qed








section \<open>No label before its prediction\<close>



section \<open>Draining the delay queue\<close>

text \<open>
  Claim C2. For every delay queue \<open>q\<close> and every timestamp \<open>t\<close>,
  \<^verbatim>\<open>_get_delayed_samples\<close> returns the columns of exactly the records of \<open>q\<close>
  whose \<open>available_time\<close> is at most \<open>t\<close>, in the order of the queue, and leaves in
  the queue exactly the records whose \<open>available_time\<close> is greater than \<open>t\<close>. The
  records returned and the records left make up the queue, each with the number of times
  it occurs there, so no record is released twice or lost. A second call at the same
  timestamp returns three empty columns and leaves the queue as it is.
\<close>

theorem get_delayed_samples_drains:
  assumes "delay_queue s = Some q" and "current_timestamp s = Some t"
  shows "get_delayed_samples s =
           Inr ((map X (filter (\<lambda>r. available_time r \<le> t) q),
                 map y_real (filter (\<lambda>r. available_time r \<le> t) q),
                 np_T (map y_pred (filter (\<lambda>r. available_time r \<le> t) q))),
                s\<lparr>delay_queue := Some (filter (\<lambda>r. t < available_time r) q)\<rparr>)
         \<and> mset (filter (\<lambda>r. available_time r \<le> t) q)
             + mset (filter (\<lambda>r. t < available_time r) q) = mset q
         \<and> get_delayed_samples (s\<lparr>delay_queue := Some (filter (\<lambda>r. t < available_time r) q)\<rparr>) =
             Inr (([], [], []), s\<lparr>delay_queue := Some (filter (\<lambda>r. t < available_time r) q)\<rparr>)"
proof (intro conjI)
  show "get_delayed_samples s =
           Inr ((map X (filter (\<lambda>r. available_time r \<le> t) q),
                 map y_real (filter (\<lambda>r. available_time r \<le> t) q),
                 np_T (map y_pred (filter (\<lambda>r. available_time r \<le> t) q))),
                s\<lparr>delay_queue := Some (filter (\<lambda>r. t < available_time r) q)\<rparr>)"
    using assms by (simp add: get_delayed_samples_def Let_def)
  show "mset (filter (\<lambda>r. available_time r \<le> t) q)
             + mset (filter (\<lambda>r. t < available_time r) q) = mset q"
    by (induction q) auto
  have "filter (\<lambda>r. available_time r \<le> t) (filter (\<lambda>r. t < available_time r) q) = []"
    by (induction q) auto
  moreover have "filter (\<lambda>r. t < available_time r) (filter (\<lambda>r. t < available_time r) q)
                   = filter (\<lambda>r. t < available_time r) q"
    by simp
  ultimately show "get_delayed_samples (s\<lparr>delay_queue := Some (filter (\<lambda>r. t < available_time r) q)\<rparr>) =
             Inr (([], [], []), s\<lparr>delay_queue := Some (filter (\<lambda>r. t < available_time r) q)\<rparr>)"
    using assms by (simp add: get_delayed_samples_def Let_def)
qed

theorem get_delayed_samples_drains_witness:
  "get_delayed_samples
     (ex_eval\<lparr>delay_queue := Some [ex_row 1 3, ex_row 2 5, ex_row 3 4, ex_row 4 9],
              current_timestamp := Some 4\<rparr>) =
     Inr (([1, 3], [0, 0], [[7, 7]]),
          ex_eval\<lparr>delay_queue := Some [ex_row 2 5, ex_row 4 9], current_timestamp := Some 4\<rparr>)
   \<and> get_delayed_samples
       (ex_eval\<lparr>delay_queue := Some [ex_row 2 5, ex_row 4 9], current_timestamp := Some 4\<rparr>) =
     Inr (([], [], []),
          ex_eval\<lparr>delay_queue := Some [ex_row 2 5, ex_row 4 9], current_timestamp := Some 4\<rparr>)"
  using get_delayed_samples_drains
          [of "ex_eval\<lparr>delay_queue := Some [ex_row 1 3, ex_row 2 5, ex_row 3 4, ex_row 4 9],
                       current_timestamp := Some 4\<rparr>"
              "[ex_row 1 3, ex_row 2 5, ex_row 3 4, ex_row 4 9]" 4]
  by (simp add: ex_row_def ex_eval_def np_T_def rectangular_def)

section \<open>The order of records with equal release times\<close>




section \<open>The cadence of the snapshots\<close>

text \<open>
  Claim C4. \<^verbatim>\<open>_update_metrics_delayed\<close> is called at one place, in an iteration of
  the main loop (\<open>iteration_metrics_state\<close>), and the loop starts an iteration only
  while \<^verbatim>\<open>global_sample_count\<close> is below \<^verbatim>\<open>actual_max_samples\<close>, which is at
  most \<^verbatim>\<open>max_samples\<close> from the first lines of the run on
  (\<open>run_start_budget\<close>). On an object in that state, whenever delayed results are fed
  to the accumulators (the list of predictions is not empty, the additions succeed and
  \<^verbatim>\<open>n_wait\<close> is not zero), a metrics update is triggered if and only if
  \<^verbatim>\<open>global_sample_count\<close> is a multiple of \<^verbatim>\<open>n_wait\<close>, or it has reached
  \<^verbatim>\<open>actual_max_samples\<close>, or \<^verbatim>\<open>global_sample_count / n_wait\<close> exceeds
  \<^verbatim>\<open>update_count + 1\<close>; the update is the next event of the trace and adds one to
  \<^verbatim>\<open>update_count\<close>, and without it neither changes. The source writes the second
  test with \<^verbatim>\<open>max_samples\<close> (\<open>update_metrics_delayed_test\<close>); in an iteration
  neither that test nor the one of the claim holds, so the two trigger the same updates.
\<close>

theorem update_metrics_delayed_cadence:
  assumes "global_sample_count s < actual_max_samples s"
    and "actual_max_samples s \<le> max_samples s"
    and "length yp > 0" and "n_wait s \<noteq> 0"
    and "add_results yr yp [0..<length (model s)] s = Inr s1"
  shows "\<exists>s'. update_metrics_delayed yr yp s = Inr s'
           \<and> (if global_sample_count s mod n_wait s = 0
                   \<or> actual_max_samples s \<le> global_sample_count s
                   \<or> of_int (update_count s + 1)
                        < (of_int (global_sample_count s) / of_int (n_wait s) :: rat)
               then trace s' = trace s @ [Update_metrics]
                      \<and> update_count s' = update_count s + 1
               else trace s' = trace s \<and> update_count s' = update_count s)"
proof -
  from update_metrics_delayed_test[OF assms(3-5)] obtain s' where
    "update_metrics_delayed yr yp s = Inr s'"
    "if global_sample_count s mod n_wait s = 0
                   \<or> max_samples s \<le> global_sample_count s
                   \<or> of_int (update_count s + 1)
                        < (of_int (global_sample_count s) / of_int (n_wait s) :: rat)
               then trace s' = trace s @ [Update_metrics]
                      \<and> update_count s' = update_count s + 1
               else trace s' = trace s \<and> update_count s' = update_count s"
    by blast
  moreover have "\<not> max_samples s \<le> global_sample_count s"
    "\<not> actual_max_samples s \<le> global_sample_count s"
    using assms(1,2) by simp_all
  ultimately show ?thesis by (intro exI[of _ s']) simp
qed

theorem update_metrics_delayed_cadence_witness:
  "update_metrics_delayed [0] [[1]] (ex_running\<lparr>global_sample_count := 2\<rparr>) =
     Inr (ex_running\<lparr>global_sample_count := 2, update_count := 1,
                      mean_eval_measurements := (\<lambda>_. [])(0 := [(0, 1)]),
                      current_eval_measurements := (\<lambda>_. [])(0 := [(0, 1)]),
                      trace := [Update_metrics]\<rparr>)
   \<and> update_metrics_delayed [0] [[1]] (ex_running\<lparr>global_sample_count := 3, update_count := 1\<rparr>) =
     Inr (ex_running\<lparr>global_sample_count := 3, update_count := 1,
                      mean_eval_measurements := (\<lambda>_. [])(0 := [(0, 1)]),
                      current_eval_measurements := (\<lambda>_. [])(0 := [(0, 1)])\<rparr>)"
  using update_metrics_delayed_cadence
          [of "ex_running\<lparr>global_sample_count := 2\<rparr>" "[[1]]" "[0]"
              "ex_running\<lparr>global_sample_count := 2,
                   mean_eval_measurements := (\<lambda>_. [])(0 := [(0, 1)]),
                   current_eval_measurements := (\<lambda>_. [])(0 := [(0, 1)])\<rparr>"]
        update_metrics_delayed_cadence
          [of "ex_running\<lparr>global_sample_count := 3, update_count := 1\<rparr>" "[[1]]" "[0]"
              "ex_running\<lparr>global_sample_count := 3, update_count := 1,
                   mean_eval_measurements := (\<lambda>_. [])(0 := [(0, 1)]),
                   current_eval_measurements := (\<lambda>_. [])(0 := [(0, 1)])\<rparr>"]
  by (simp add: ex_running_def ex_eval_def update_metrics_delayed_def)

section \<open>The budget of samples\<close>

text \<open>
  Claim C5, as stated, bounds the final count by
  \<^verbatim>\<open>actual_max_samples + batch_size - 1\<close>. Pretraining adds \<^verbatim>\<open>pretrain_size\<close> to
  the count before the loop tests it. With 3 pretraining samples, a maximum of 1 and a
  batch size of 1 on the stream of four samples, the run returns with a count of 3 and
  \<^verbatim>\<open>actual_max_samples\<close> 1.
\<close>

theorem pretrain_overshoot_counterexample:
  "train_and_test ex_collab (ex_eval\<lparr>max_samples := 1, pretrain_size := 3\<rparr>) =
     Returns
       (ex_eval\<lparr>max_samples := 1, pretrain_size := 3, model := [3], global_sample_count := 3,
                 actual_max_samples := 1, first_run := False, current_timestamp := Some 3,
                 delay_queue := Some [],
                 trace := [Print ''Prequential Evaluation Delayed'',
                           Print_format ''Evaluating {} target(s).'' 1,
                           Print_format ''Pre-training on {} sample(s).'' 3,
                           Partial_fit 0 [10, 11, 12] [0, 1, 0] (Some [0, 1]),
                           Print ''Evaluating...'', Flush_file_buffer, Evaluation_summary]\<rparr>)"
  by (simp add: ex_defs run_defs)

text \<open>
  Claim C5, amended. A prediction step that succeeds adds exactly \<^verbatim>\<open>batch_size\<close> to
  \<^verbatim>\<open>global_sample_count\<close>; so does every iteration that completes, and an
  iteration that raises leaves the count as it was. Whenever a run ends, by returning or
  by an exception, the final count is at most the larger of the count after pretraining
  (the count at the start plus \<^verbatim>\<open>pretrain_size\<close>) and
  \<^verbatim>\<open>actual_max_samples + batch_size - 1\<close>.
\<close>

theorem sample_count_budget:
  "(predict_samples c (Some Xs) s = Inr (po, s') \<longrightarrow>
      global_sample_count s' = global_sample_count s + int (batch_size s))
   \<and> (iteration c s = Inr s' \<longrightarrow>
      global_sample_count s' = global_sample_count s + int (batch_size s))
   \<and> (iteration c s = Inl (e, s') \<longrightarrow> global_sample_count s' = global_sample_count s)
   \<and> (final_state (train_and_test c s) = Some sf \<longrightarrow>
        global_sample_count sf
           \<le> max (global_sample_count s + int (pretrain_size s))
                 (actual_max_samples sf + int (batch_size s) - 1))"
  using predict_samples_Inr[of c Xs s po s'] iteration_count[of c s s' e]
        train_and_test_count[of c s sf]
  by blast

theorem sample_count_budget_witness:
  "\<exists>sf. final_state (train_and_test ex_collab ex_eval) = Some sf
      \<and> global_sample_count sf = 4 \<and> actual_max_samples sf = 4
      \<and> global_sample_count sf \<le> max (0 + 1) (4 + 1 - 1)"
proof -
  obtain sf where sf: "final_state (train_and_test ex_collab ex_eval) = Some sf"
    "global_sample_count sf = 4" "actual_max_samples sf = 4"
    by (simp add: ex_defs run_defs final_state_def)
  from sample_count_budget[of ex_collab "[]" ex_eval None ex_eval IndexError sf] sf
  have "global_sample_count sf \<le> max (0 + 1) (4 + 1 - 1)"
    by (simp add: ex_eval_def)
  with sf show ?thesis by blast
qed

section \<open>The timestamp\<close>

text \<open>
  Claim C6. When the pretraining phase completes (with a sort that returns the rows it was
  given), the block it pulled is not empty, \<^verbatim>\<open>current_timestamp\<close> is the arrival time
  of the last sample of the block, and the delay queue is empty. In an iteration that
  pulls a batch \<open>b\<close> that is not empty, the iteration is the steps from the drain on,
  run on the object whose \<^verbatim>\<open>current_timestamp\<close> is already the arrival time
  \<open>t\<close> of the last sample of \<open>b\<close>; the timestamp is still \<open>t\<close> when the iteration
  ends, whether it returns or raises. On a queue \<open>q\<close>, every event of the iteration is
  the snapshot, a call of \<^verbatim>\<open>partial_fit\<close> on the records of \<open>q\<close> released at
  \<open>t\<close>, or a call of \<^verbatim>\<open>predict\<close> on the new batch, and the queue it leaves is
  \<open>q\<close> without the records released at \<open>t\<close> (followed, when it returns, by the
  records of the new batch, sorted): the drain, the training and the prediction all see
  the new timestamp.
\<close>

theorem watermark_assignment:
  fixes s :: "('m, 'x, 'l::linorder, 't::linorder) evaluator"
    and p :: "('m, 'x, 'l::linorder, 't::linorder) evaluator"
  shows "(0 < pretrain_size p \<and> sort_contract c \<and> pretrain c p = Inr p'
            \<and> next_sample (pretrain_size p) (stream p) = (bp, stp) \<longrightarrow>
          batch_arrival_time bp \<noteq> []
          \<and> current_timestamp p' = Some (last (batch_arrival_time bp))
          \<and> delay_queue p' = Some [])
       \<and> (next_sample (batch_size s) (stream s) = (b, st) \<and> batch_arrival_time b \<noteq> [] \<longrightarrow>
          current_timestamp (st_of (iteration c s)) = Some (last (batch_arrival_time b))
          \<and> iteration c s =
              iteration_steps c b
                (s\<lparr>stream := st, current_timestamp := Some (last (batch_arrival_time b))\<rparr>)
          \<and> (\<forall>q. delay_queue s = Some q \<longrightarrow>
               (\<exists>evs. trace (st_of (iteration c s)) = trace s @ evs
                  \<and> (\<forall>e\<in>set evs.
                        step_event
                          (filter (\<lambda>r. available_time r \<le> last (batch_arrival_time b)) q)
                          (batch_X b) e)
                  \<and> (\<forall>e s''. iteration c s = Inl (e, s'') \<longrightarrow>
                        delay_queue s'' =
                          Some (filter (\<lambda>r. last (batch_arrival_time b) < available_time r) q))
                  \<and> (\<forall>s''. iteration c s = Inr s'' \<longrightarrow>
                        (\<exists>ps. delay_queue s'' =
                           Some (sort_values c
                              (filter (\<lambda>r. last (batch_arrival_time b) < available_time r) q
                               @ zip_rows (batch_X b) (batch_y b) ps (batch_arrival_time b)
                                  (batch_available_time b))))))))"
proof (intro conjI impI allI)
  assume a: "0 < pretrain_size p \<and> sort_contract c \<and> pretrain c p = Inr p'
            \<and> next_sample (pretrain_size p) (stream p) = (bp, stp)"
  from pretrain_Inr[of p c p' bp stp] a sort_contract_Nil[of c]
  show "batch_arrival_time bp \<noteq> []" "current_timestamp p' = Some (last (batch_arrival_time bp))"
    "delay_queue p' = Some []"
    by simp_all
next
  assume a: "next_sample (batch_size s) (stream s) = (b, st) \<and> batch_arrival_time b \<noteq> []"
  then show "current_timestamp (st_of (iteration c s)) = Some (last (batch_arrival_time b))"
    by (intro iteration_timestamp) simp_all
  from a show "iteration c s =
              iteration_steps c b
                (s\<lparr>stream := st, current_timestamp := Some (last (batch_arrival_time b))\<rparr>)"
    by (intro iteration_nonempty_batch) simp_all
  fix q assume "delay_queue s = Some q"
  with a iteration_at_timestamp[of s b st q c]
  show "\<exists>evs. trace (st_of (iteration c s)) = trace s @ evs
                  \<and> (\<forall>e\<in>set evs.
                        step_event
                          (filter (\<lambda>r. available_time r \<le> last (batch_arrival_time b)) q)
                          (batch_X b) e)
                  \<and> (\<forall>e s''. iteration c s = Inl (e, s'') \<longrightarrow>
                        delay_queue s'' =
                          Some (filter (\<lambda>r. last (batch_arrival_time b) < available_time r) q))
                  \<and> (\<forall>s''. iteration c s = Inr s'' \<longrightarrow>
                        (\<exists>ps. delay_queue s'' =
                           Some (sort_values c
                              (filter (\<lambda>r. last (batch_arrival_time b) < available_time r) q
                               @ zip_rows (batch_X b) (batch_y b) ps (batch_arrival_time b)
                                  (batch_available_time b)))))"
    by blast
qed


theorem watermark_assignment_witness:
  "pretrain ex_collab ex_eval = Inr ex_pretrained
   \<and> current_timestamp ex_pretrained = Some 1 \<and> delay_queue ex_pretrained = Some []
   \<and> current_timestamp (st_of (iteration ex_collab ex_running)) = Some 2"
proof -
  have 1: "pretrain ex_collab ex_eval = Inr ex_pretrained"
    by (simp add: ex_pretrained_def ex_defs run_defs)
  have 2: "next_sample (pretrain_size ex_eval) (stream ex_eval) =
             (\<lparr>batch_X = [10], batch_arrival_time = [1], batch_available_time = [2],
               batch_y = [0]\<rparr>, ex_stream\<lparr>sample_idx := 1\<rparr>)"
    by (simp add: ex_defs next_sample_def)
  have 3: "next_sample (batch_size ex_running) (stream ex_running) =
             (\<lparr>batch_X = [11], batch_arrival_time = [2], batch_available_time = [3],
               batch_y = [1]\<rparr>, ex_stream\<lparr>sample_idx := 2\<rparr>)"
    by (simp add: ex_running_def ex_defs next_sample_def)
  have 4: "0 < pretrain_size ex_eval" by (simp add: ex_eval_def)
  note W = watermark_assignment[where p = ex_eval and c = ex_collab and p' = ex_pretrained
         and s = ex_running
         and bp = "\<lparr>batch_X = [10], batch_arrival_time = [1], batch_available_time = [2],
               batch_y = [0]\<rparr>"
         and stp = "ex_stream\<lparr>sample_idx := 1\<rparr>"
         and b = "\<lparr>batch_X = [11], batch_arrival_time = [2], batch_available_time = [3],
               batch_y = [1]\<rparr>"
         and st = "ex_stream\<lparr>sample_idx := 2\<rparr>"]
  from W[THEN conjunct1, THEN mp, OF conjI[OF 4 conjI[OF sort_contract_ex_collab conjI[OF 1 2]]]]
  have a: "current_timestamp ex_pretrained = Some 1" "delay_queue ex_pretrained = Some []"
    by simp_all
  have "batch_arrival_time \<lparr>batch_X = [11::nat], batch_arrival_time = [2::nat],
           batch_available_time = [3::nat], batch_y = [1::nat]\<rparr> \<noteq> []"
    by simp
  from W[THEN conjunct2, THEN mp, OF conjI[OF 3 this], THEN conjunct1]
  have "current_timestamp (st_of (iteration ex_collab ex_running)) = Some 2"
    by simp
  with 1 a show ?thesis by blast
qed

section \<open>Exceptions in the main loop\<close>

text \<open>
  Claim C7 asks that after any exception in an iteration the run is finalized and the
  models are returned. The queue is created only by the pretraining block. With
  \<^verbatim>\<open>pretrain_size\<close> 0 on an evaluator that has no \<^verbatim>\<open>delay_queue\<close> yet, the
  first iteration raises AttributeError in \<^verbatim>\<open>_get_delayed_samples\<close>; the loop
  catches and prints it; the test \<^verbatim>\<open>self.delay_queue.shape[0] > 0\<close> after the loop
  raises AttributeError again, outside any handler, and that exception leaves
  \<^verbatim>\<open>_train_and_test\<close>: nothing is flushed, no summary is emitted and no model is
  returned. (When pretraining ran the queue is there, and \<open>train_and_test_returns\<close>
  shows that the run returns after the flush and the summary, with the stream restarted
  if configured.)
\<close>

theorem missing_queue_raises:
  "train_and_test ex_collab (ex_eval\<lparr>pretrain_size := 0\<rparr>) =
     Raises (AttributeError ''delay_queue'')
       (ex_eval\<lparr>pretrain_size := 0, stream := ex_stream\<lparr>sample_idx := 1\<rparr>,
                 actual_max_samples := 4, current_timestamp := Some 1,
                 trace := [Print ''Prequential Evaluation Delayed'',
                           Print_format ''Evaluating {} target(s).'' 1, Print ''Evaluating...'',
                           Print_exc (AttributeError ''delay_queue'')]\<rparr>)"
  by (simp add: ex_defs run_defs)

text \<open>
  Claim C8, as stated, has an error for every output of \<^verbatim>\<open>predict\<close> that is not a
  valid per-sample sequence. The handler of \<^verbatim>\<open>_predict_samples\<close> catches TypeError
  only. A model that returns an empty sequence for a batch of one sample gives no label
  for that sample; the prediction step returns without an error, the iteration completes,
  and the sample never enters the delay queue.
\<close>

theorem short_prediction_counterexample:
  "predict_samples short_collab (Some [11]) ex_running =
     Inr (Some [], ex_running\<lparr>global_sample_count := 2, trace := [Predict 0 [11]]\<rparr>)
   \<and> iteration short_collab ex_running =
     Inr (ex_running\<lparr>stream := ex_stream\<lparr>sample_idx := 2\<rparr>, global_sample_count := 2,
                     current_timestamp := Some 2, delay_queue := Some [],
                     trace := [Predict 0 [11]]\<rparr>)"
  by (simp add: short_collab_def ex_running_def ex_defs run_defs)

text \<open>
  Claim C8, amended. The prediction step raises the TypeError that names the type of a
  model exactly for a call of \<^verbatim>\<open>predict\<close> that returns a value that is not
  iterable, or raises TypeError. When the models before the model \<open>i\<close> return
  sequences and the call of the model \<open>i\<close> does one of the two, the step raises the
  error with the type of the model \<open>i\<close>, and the sample count is not advanced.
  Conversely, when the step raises a TypeError, there is such a model \<open>i\<close>, the models
  before it returned sequences, and the error is the one with its type: an output that
  is a sequence is not reported by this error, whatever its length. An exception raised
  by an iteration, this one included, is caught by the loop: the loop ends there, with
  the exception printed as the last event on the object as the iteration left it. And a
  run whose queue is there after pretraining, with a positive batch size, returns to the
  caller whatever happened in the loop.
\<close>

theorem invalid_prediction_reported:
  fixes s :: "('m, 'x, 'l::linorder, 't::linorder) evaluator"
  assumes "i < length (model s)"
    and "\<forall>j<i. \<exists>ls. predict c (model s ! j) Xs = Labels ls"
    and "predict c (model s ! i) Xs = NotIterable
         \<or> (\<exists>m. predict c (model s ! i) Xs = PredictRaises (TypeError m))"
  shows "(\<exists>s'. predict_samples c (Some Xs) s
                 = Inl (unexpected_prediction (type_name c (model s ! i)), s')
              \<and> global_sample_count s' = global_sample_count s)
       \<and> (predict_samples c (Some Xs') r1 = Inl (TypeError msg, r1') \<longrightarrow>
          (\<exists>n<length (model r1).
              (\<forall>j<n. \<exists>ls. predict c (model r1 ! j) Xs' = Labels ls)
            \<and> (predict c (model r1 ! n) Xs' = NotIterable
                 \<or> (\<exists>m. predict c (model r1 ! n) Xs' = PredictRaises (TypeError m)))
            \<and> TypeError msg = unexpected_prediction (type_name c (model r1 ! n))))
       \<and> (global_sample_count s0 < actual_max_samples s0 \<and> timer_ok c k
            \<and> has_more_samples (stream s0) \<and> iteration c s0 = Inl (e, s1) \<longrightarrow>
          running_loop c k s0 = s1\<lparr>trace := trace s1 @ [Print_exc e]\<rparr>)
       \<and> (pretrain c (run_start r) = Inr r2 \<and> delay_queue r2 = Some q \<and> 0 < batch_size r \<longrightarrow>
          (\<exists>sf. train_and_test c r = Returns sf))"
proof (intro conjI impI)
  have "[0..<length (model s)] = [0..<i] @ i # [Suc i..<length (model s)]"
    using assms(1) by (metis le0 upt_add_eq_append upt_conv_Cons le_add_diff_inverse less_imp_le_nat add.commute)
  moreover have "\<forall>j\<in>set [0..<i]. \<exists>ls. predict c (model s ! j) Xs = Labels ls"
    using assms(2) by simp
  ultimately obtain s' where
    pm: "predict_models c Xs [0..<length (model s)] s
          = Inl (unexpected_prediction (type_name c (model s ! i)), s')"
    using predict_models_raises[of "[0..<i]" c s Xs i "[Suc i..<length (model s)]"] assms(3)
    by auto
  then have "predict_samples c (Some Xs) s
          = Inl (unexpected_prediction (type_name c (model s ! i)), s')"
    by (simp add: predict_samples_def)
  with predict_samples_Inl[of c Xs s _ s']
  show "\<exists>s'. predict_samples c (Some Xs) s
                 = Inl (unexpected_prediction (type_name c (model s ! i)), s')
              \<and> global_sample_count s' = global_sample_count s"
    by blast
next
  assume "predict_samples c (Some Xs') r1 = Inl (TypeError msg, r1')"
  then show "\<exists>n<length (model r1).
              (\<forall>j<n. \<exists>ls. predict c (model r1 ! j) Xs' = Labels ls)
            \<and> (predict c (model r1 ! n) Xs' = NotIterable
                 \<or> (\<exists>m. predict c (model r1 ! n) Xs' = PredictRaises (TypeError m)))
            \<and> TypeError msg = unexpected_prediction (type_name c (model r1 ! n))"
    by (rule predict_samples_unexpected)
next
  assume "global_sample_count s0 < actual_max_samples s0 \<and> timer_ok c k
            \<and> has_more_samples (stream s0) \<and> iteration c s0 = Inl (e, s1)"
  then show "running_loop c k s0 = s1\<lparr>trace := trace s1 @ [Print_exc e]\<rparr>"
    by (intro running_loop_catches) simp_all
next
  assume "pretrain c (run_start r) = Inr r2 \<and> delay_queue r2 = Some q \<and> 0 < batch_size r"
  then have "\<exists>sf tr. train_and_test c r = Returns sf
           \<and> trace sf = tr @ [Flush_file_buffer,
                if set (metrics r) - {DATA_POINTS} \<noteq> {} then Evaluation_summary else Print ''Done'']
           \<and> (restart_stream r \<longrightarrow> sample_idx (stream sf) = 0)"
    by (intro train_and_test_returns[of c r r2 q]) simp_all
  then show "\<exists>sf. train_and_test c r = Returns sf" by blast
qed

theorem invalid_prediction_reported_witness:
  "predict_samples not_iterable_collab (Some [11]) ex_running =
     Inl (TypeError ''Unexpected prediction value from Model'',
          ex_running\<lparr>trace := [Predict 0 [11]]\<rparr>)
   \<and> running_loop not_iterable_collab 0 ex_running =
       ex_running\<lparr>stream := ex_stream\<lparr>sample_idx := 2\<rparr>, current_timestamp := Some 2,
                  trace := [Predict 0 [11],
                            Print_exc (TypeError ''Unexpected prediction value from Model'')]\<rparr>"
  using invalid_prediction_reported[of 0 ex_running not_iterable_collab "[11]"]
  by (simp add: not_iterable_collab_def ex_running_def ex_defs run_defs unexpected_prediction_def)

section \<open>The draining phase\<close>

text \<open>
  Claim C9. After the main loop, with the queue \<open>q\<close> there and a positive batch size
  (or an empty queue), the draining phase ends and changes nothing but the queue: the
  object it leaves is the one it found with a suffix of the queue (of the sorted queue,
  when \<open>q\<close> is not empty) in place of \<open>q\<close>. No \<^verbatim>\<open>partial_fit\<close> is called (the
  models and the trace are the same) and no \<^verbatim>\<open>add_result\<close> (both lists of
  accumulators are the same).
\<close>

theorem draining_only_shrinks_queue:
  assumes "delay_queue s = Some q" and "0 < batch_size s \<or> q = []"
  shows "\<exists>n s'. draining c s = Some (Inr s')
           \<and> s' = s\<lparr>delay_queue := Some (drop n (if q = [] then [] else sort_values c q))\<rparr>
           \<and> model s' = model s
           \<and> mean_eval_measurements s' = mean_eval_measurements s
           \<and> current_eval_measurements s' = current_eval_measurements s
           \<and> trace s' = trace s"
proof (cases "q = []")
  case True
  with assms(1) have "draining c s = Some (Inr s)"
    by (simp add: draining_def)
  moreover have "s = s\<lparr>delay_queue := Some (drop 0 (if q = [] then [] else sort_values c q))\<rparr>"
    using True assms(1) by simp
  ultimately show ?thesis using True by (intro exI[of _ 0] exI[of _ s]) simp
next
  case False
  with assms(2) have bs: "0 < batch_size s" by simp
  from drain_chunks_drops[OF bs, of "sort_values c q"]
  obtain n where n: "drain_chunks (batch_size s) (sort_values c q) = Some (drop n (sort_values c q))"
    by blast
  have "draining c s = Some (Inr (s\<lparr>delay_queue := Some (drop n (sort_values c q))\<rparr>))"
    using False assms(1) n by (simp add: draining_def sort_delay_queue_def)
  with False show ?thesis
    by (intro exI[of _ n] exI[of _ "s\<lparr>delay_queue := Some (drop n (sort_values c q))\<rparr>"]) simp
qed

theorem draining_only_shrinks_queue_witness:
  "draining ex_collab
     (ex_eval\<lparr>batch_size := 2,
              delay_queue := Some [ex_row 1 7, ex_row 2 5, ex_row 3 6, ex_row 4 9, ex_row 5 8]\<rparr>)
   = Some (Inr (ex_eval\<lparr>batch_size := 2, delay_queue := Some [ex_row 4 9]\<rparr>))"
  using draining_only_shrinks_queue
          [of "ex_eval\<lparr>batch_size := 2,
              delay_queue := Some [ex_row 1 7, ex_row 2 5, ex_row 3 6, ex_row 4 9, ex_row 5 8]\<rparr>"
              "[ex_row 1 7, ex_row 2 5, ex_row 3 6, ex_row 4 9, ex_row 5 8]" ex_collab]
  by (simp add: ex_eval_def ex_collab_def ex_row_def draining_def sort_delay_queue_def
        drain_chunks.simps)

section \<open>The list of metrics the constructor stores\<close>

text \<open>
  Claim C10. In the data-points mode, a constructor given the list object at the address
  \<open>m\<close> stores that address and appends the data-points constant to the object at
  \<open>m\<close>: the caller's list is the one that grows, and the other objects of the store are
  as before. Given \<^verbatim>\<open>None\<close> it stores the address of a new object that holds the
  data-points constant alone, and the objects of the store are as before.
\<close>

theorem init_data_points_metrics:
  assumes "arg_data_points_for_classification a"
  shows "(arg_metrics a = Metrics_list m \<and> m < length h \<longrightarrow>
            (\<exists>ev h'. init a h = Inr (ev, h') \<and> self_metrics ev = m
               \<and> length h' = length h \<and> h' ! m = h ! m @ [DATA_POINTS]
               \<and> (\<forall>k. k < length h \<and> k \<noteq> m \<longrightarrow> h' ! k = h ! k)))
       \<and> (arg_metrics a = Metrics_None \<longrightarrow>
            (\<exists>ev. init a h = Inr (ev, h @ [[DATA_POINTS]]) \<and> self_metrics ev = length h))"
  using assms by (auto simp: init_def alloc_def with_metrics_def)

theorem init_data_points_metrics_witness:
  "init ex_args [[''kappa''], [''accuracy'']] =
     Inr (with_metrics ex_args 1, [[''kappa''], [''accuracy'', ''data_points'']])
   \<and> init (ex_args\<lparr>arg_metrics := Metrics_None\<rparr>) [[''kappa''], [''accuracy'']] =
     Inr (with_metrics (ex_args\<lparr>arg_metrics := Metrics_None\<rparr>) 2,
          [[''kappa''], [''accuracy''], [''data_points'']])"
  using init_data_points_metrics[of ex_args 1 "[[''kappa''], [''accuracy'']]"]
  by (simp add: ex_args_def init_def alloc_def DATA_POINTS_def with_metrics_def)

end
